theory Spec2Isabelle
  imports Main
begin

section \<open>nile.common: command construction and response parsing\<close>

text \<open>
  A shallow embedding of \<^verbatim>\<open>src/nile/common.py\<close>. The free text that the two scanning
  functions \<^verbatim>\<open>parse_information\<close> and \<^verbatim>\<open>get_addresses_from_string\<close> receive is a list of
  Unicode code points, since the regular-expression class \<^verbatim>\<open>\d\<close> and \<^verbatim>\<open>int()\<close> accept the
  decimal digits of every script. Parameter values, command tokens and file contents are
  modelled as \<^typ>\<open>string\<close>, a character standing for a code point below 256; the white
  space accepted by \<^verbatim>\<open>int()\<close> in that range is the six ASCII blanks together with U+0085
  and U+00A0. Exceptions are values of \<open>pyerr\<close>, results are sums with \<open>Inl\<close> for the
  exception raised.
\<close>

subsection \<open>Exceptions\<close>

datatype pyerr =
    ValueError
  | TypeError
  | AttributeError
  | AssertionError
  | UnicodeError
  | OSError

subsection \<open>The builtin \<^verbatim>\<open>int(text, base)\<close>\<close>

text \<open>
  CPython's \<^verbatim>\<open>PyLong_FromString\<close> for the two bases the module uses (10 and 16): leading
  white space, an optional sign, for base 16 an optional \<^verbatim>\<open>0x\<close>/\<^verbatim>\<open>0X\<close> prefix that may be
  followed by one underscore, then digits separated by single underscores, then trailing
  white space up to the end of the text. Anything else is \<^verbatim>\<open>ValueError\<close>. The limit that
  recent interpreters put on the number of decimal digits (\<^verbatim>\<open>int_max_str_digits\<close>) is
  not modelled.
\<close>

definition int_space :: "char \<Rightarrow> bool" where
  "int_space c = (of_char c \<in> {9, 10, 11, 12, 13, 32, 133, 160 :: nat})"

definition digit_value :: "char \<Rightarrow> nat option" where
  "digit_value c =
     (let k = (of_char c :: nat) in
      if 48 \<le> k \<and> k \<le> 57 then Some (k - 48)
      else if 97 \<le> k \<and> k \<le> 122 then Some (k - 87)
      else if 65 \<le> k \<and> k \<le> 90 then Some (k - 55)
      else None)"

definition digit_in_base :: "nat \<Rightarrow> char \<Rightarrow> bool" where
  "digit_in_base b c = (case digit_value c of None \<Rightarrow> False | Some d \<Rightarrow> d < b)"

text \<open>
  The digit loop: \<open>pu\<close> records that the previous character was an underscore, \<open>n\<close>
  counts the digits read and \<open>acc\<close> is their value. The loop stops at the first
  character that is neither a digit of the base nor an underscore; a doubled or a final
  underscore is an error (\<open>None\<close>).
\<close>

fun scan_digits :: "nat \<Rightarrow> bool \<Rightarrow> nat \<Rightarrow> nat \<Rightarrow> string \<Rightarrow> (nat \<times> nat \<times> string) option" where
  "scan_digits b pu n acc [] = (if pu then None else Some (acc, n, []))"
| "scan_digits b pu n acc (c # cs) =
     (if c = CHR ''_'' then (if pu then None else scan_digits b True n acc cs)
      else if digit_in_base b c
        then scan_digits b False (Suc n) (acc * b + the (digit_value c)) cs
      else if pu then None else Some (acc, n, c # cs))"

definition strip_sign :: "string \<Rightarrow> bool \<times> string" where
  "strip_sign s =
     (case s of
        [] \<Rightarrow> (False, [])
      | c # cs \<Rightarrow> if c = CHR ''+'' then (False, cs)
                else if c = CHR ''-'' then (True, cs)
                else (False, c # cs))"

definition strip_prefix16 :: "nat \<Rightarrow> string \<Rightarrow> string" where
  "strip_prefix16 b s =
     (case s of
        c0 # c1 # r \<Rightarrow>
          if b = 16 \<and> c0 = CHR ''0'' \<and> (c1 = CHR ''x'' \<or> c1 = CHR ''X'')
          then (case r of u # r' \<Rightarrow> if u = CHR ''_'' then r' else r | [] \<Rightarrow> r)
          else s
      | _ \<Rightarrow> s)"

definition py_int :: "nat \<Rightarrow> string \<Rightarrow> pyerr + int" where
  "py_int b s =
     (let (neg, s1) = strip_sign (dropWhile int_space s);
          s2 = strip_prefix16 b s1
      in if take 1 s2 = ''_'' then Inl ValueError
         else (case scan_digits b False 0 0 s2 of
                 None \<Rightarrow> Inl ValueError
               | Some (acc, n, rest) \<Rightarrow>
                   if n = 0 \<or> \<not> list_all int_space rest then Inl ValueError
                   else Inr (if neg then - int acc else int acc)))"

subsection \<open>Text as code points; the decimal digits of Unicode\<close>

text \<open>
  A Python \<^verbatim>\<open>str\<close> of arbitrary content is the list of its code points. The class \<^verbatim>\<open>\d\<close>
  of a \<^verbatim>\<open>str\<close> pattern and the digits that \<^verbatim>\<open>int()\<close> accepts are the characters of the
  Unicode category Nd. In the character database of the interpreter (UCD 14.0 in CPython
  3.11; older versions lack some of the later ranges) they form 66 ranges of ten code
  points, each holding the digits 0 to 9 in order; the list gives the first code point of
  every range.
\<close>

type_synonym utext = "nat list"

definition decimal_starts :: "nat list" where
  "decimal_starts =
     [48, 1632, 1776, 1984, 2406, 2534, 2662, 2790, 2918, 3046, 3174, 3302, 3430, 3558,
      3664, 3792, 3872, 4160, 4240, 6112, 6160, 6470, 6608, 6784, 6800, 6992, 7088, 7232,
      7248, 42528, 43216, 43264, 43472, 43504, 43600, 44016, 65296, 66720, 68912, 69734,
      69872, 69942, 70096, 70384, 70736, 70864, 71248, 71360, 71472, 71904, 72016, 72784,
      73040, 73120, 92768, 92864, 93008, 120782, 120792, 120802, 120812, 120822, 123200,
      123632, 125264, 130032]"

definition unicode_decimal :: "nat \<Rightarrow> nat option" where
  "unicode_decimal cp =
     (case filter (\<lambda>s. s \<le> cp \<and> cp < s + 10) decimal_starts of
        [] \<Rightarrow> None
      | s # _ \<Rightarrow> Some (cp - s))"

subsection \<open>The pattern \<^verbatim>\<open>0x[\da-f]{1,64}\<close> and \<^verbatim>\<open>re.findall\<close>\<close>

text \<open>The character class \<^verbatim>\<open>[\da-f]\<close>: a decimal digit of any script, or one of a to f.\<close>

definition class_d_af :: "nat \<Rightarrow> bool" where
  "class_d_af cp = (unicode_decimal cp \<noteq> None \<or> (97 \<le> cp \<and> cp \<le> 102))"

text \<open>
  One attempt to match \<^verbatim>\<open>0x[C]{1,64}\<close>, for a character class \<open>C\<close>, at the head of the
  text: the two literal characters \<^verbatim>\<open>0\<close> (48) and \<^verbatim>\<open>x\<close> (120), then greedily as many of the
  next 64 characters as are in the class, at least one. The result is the matched token
  and the text after it.
\<close>

definition match_0x :: "(nat \<Rightarrow> bool) \<Rightarrow> utext \<Rightarrow> (utext \<times> utext) option" where
  "match_0x cls s =
     (case s of
        c0 # c1 # r \<Rightarrow>
          if c0 = 48 \<and> c1 = 120 then
            (let ds = takeWhile cls (take 64 r)
             in if ds = [] then None else Some (48 # 120 # ds, drop (length ds) r))
          else None
      | _ \<Rightarrow> None)"

lemma match_0x_shorter: "match_0x cls s = Some (m, rest) \<Longrightarrow> length rest < length s"
  by (auto simp: match_0x_def Let_def split: list.splits if_splits)

text \<open>
  \<^verbatim>\<open>re.findall\<close>: scan from the left; where the pattern matches, emit the token and go on
  after it, otherwise move one character on.
\<close>

function findall_0x :: "(nat \<Rightarrow> bool) \<Rightarrow> utext \<Rightarrow> utext list" where
  "findall_0x cls [] = []"
| "findall_0x cls (c # cs) =
     (case match_0x cls (c # cs) of
        Some (m, rest) \<Rightarrow> m # findall_0x cls rest
      | None \<Rightarrow> findall_0x cls cs)"
  by pat_completeness auto
termination
  by (relation "measure (\<lambda>(cls, s). length s)") (auto dest: match_0x_shorter)

definition findall_pattern :: "utext \<Rightarrow> utext list" where
  "findall_pattern x = findall_0x class_d_af x"

subsection \<open>\<^verbatim>\<open>parse_information\<close>\<close>

text \<open>
  \<^verbatim>\<open>address, tx_hash = re.findall(...)\<close> unpacks a list of exactly two elements and raises
  \<^verbatim>\<open>ValueError\<close> for any other length. \<^verbatim>\<open>normalize_number\<close> lives in \<^verbatim>\<open>nile.utils\<close>,
  which is not part of the sources at hand; it is the parameter \<open>norm\<close>, and may raise.
  The tuple is built left to right.
\<close>

definition parse_information :: "(utext \<Rightarrow> pyerr + 'n) \<Rightarrow> utext \<Rightarrow> pyerr + ('n \<times> 'n)" where
  "parse_information norm x =
     (case findall_pattern x of
        [address, tx_hash] \<Rightarrow>
          (case norm address of
             Inl e \<Rightarrow> Inl e
           | Inr a \<Rightarrow> (case norm tx_hash of Inl e \<Rightarrow> Inl e | Inr t \<Rightarrow> Inr (a, t)))
      | _ \<Rightarrow> Inl ValueError)"

subsection \<open>Parameter values\<close>

text \<open>
  The values a caller passes as call, invoke and deploy parameters: integers, text, and
  lists or tuples of them, nested to any depth. The result of \<^verbatim>\<open>stringify\<close> is a
  \<^verbatim>\<open>str\<close> or a list of results.
\<close>

datatype pyval =
    PInt int
  | PStr string
  | PList "pyval list"
  | PTuple "pyval list"

datatype pyres =
    RStr string
  | RList "pyres list"

text \<open>The builtin \<^verbatim>\<open>str\<close> on an integer: its decimal digits, with a minus sign if negative.\<close>

function nat_digits :: "nat \<Rightarrow> string" where
  "nat_digits n =
     (if n < 10 then [''0123456789'' ! n]
      else nat_digits (n div 10) @ [''0123456789'' ! (n mod 10)])"
  by pat_completeness auto
termination
  by (relation "measure id") auto

declare nat_digits.simps [simp del]

definition str_int :: "int \<Rightarrow> string" where
  "str_int i = (if i < 0 then CHR ''-'' # nat_digits (nat (- i)) else nat_digits (nat i))"

text \<open>A list comprehension over fallible elements: the first exception aborts it.\<close>

fun collect :: "('e + 'a) list \<Rightarrow> 'e + 'a list" where
  "collect [] = Inr []"
| "collect (r # rs) =
     (case r of
        Inl e \<Rightarrow> Inl e
      | Inr v \<Rightarrow> (case collect rs of Inl e \<Rightarrow> Inl e | Inr vs \<Rightarrow> Inr (v # vs)))"

subsection \<open>\<^verbatim>\<open>is_string\<close>\<close>

text \<open>
  The two \<^verbatim>\<open>try\<close> blocks. \<^verbatim>\<open>int(param)\<close> returns an integer as it is, parses text in
  base 10 and raises \<^verbatim>\<open>TypeError\<close> on a list or tuple. \<^verbatim>\<open>param.startswith\<close> exists on
  text only (\<^verbatim>\<open>AttributeError\<close> otherwise); a failed \<^verbatim>\<open>assert\<close> raises
  \<^verbatim>\<open>AssertionError\<close> (the interpreter runs without \<^verbatim>\<open>-O\<close>, which would drop the
  \<^verbatim>\<open>assert\<close>). Each handler catches every \<^verbatim>\<open>Exception\<close>.
\<close>

definition try_int :: "pyval \<Rightarrow> pyerr + int" where
  "try_int param =
     (case param of
        PInt n \<Rightarrow> Inr n
      | PStr s \<Rightarrow> py_int 10 s
      | PList _ \<Rightarrow> Inl TypeError
      | PTuple _ \<Rightarrow> Inl TypeError)"

definition try_hex :: "pyval \<Rightarrow> pyerr + int" where
  "try_hex param =
     (case param of
        PStr s \<Rightarrow> if take 2 s = ''0x'' then py_int 16 s else Inl AssertionError
      | _ \<Rightarrow> Inl AttributeError)"

definition is_string :: "pyval \<Rightarrow> bool" where
  "is_string param =
     (let is_int = (case try_int param of Inl _ \<Rightarrow> False | Inr _ \<Rightarrow> True);
          is_hex = (case try_hex param of Inl _ \<Rightarrow> False | Inr _ \<Rightarrow> True)
      in \<not> is_int \<and> \<not> is_hex)"

definition is_alias :: "pyval \<Rightarrow> bool" where
  "is_alias param = is_string param"

subsection \<open>\<^verbatim>\<open>stringify\<close> and \<^verbatim>\<open>prepare_params\<close>\<close>

text \<open>
  \<^verbatim>\<open>str_to_felt\<close> lives in \<^verbatim>\<open>nile.utils\<close>, which is not part of the sources at hand; it
  is the parameter \<open>felt\<close>, returns an integer and may raise. A list and a tuple both
  become a list of the results of their elements.
\<close>

fun stringify :: "(pyval \<Rightarrow> pyerr + int) \<Rightarrow> bool \<Rightarrow> pyval \<Rightarrow> pyerr + pyres" where
  "stringify felt process_short_strings (PList xs) =
     map_sum id RList (collect (map (stringify felt process_short_strings) xs))"
| "stringify felt process_short_strings (PTuple xs) =
     map_sum id RList (collect (map (stringify felt process_short_strings) xs))"
| "stringify felt process_short_strings (PInt n) =
     (if process_short_strings \<and> is_string (PInt n)
      then map_sum id (\<lambda>v. RStr (str_int v)) (felt (PInt n))
      else Inr (RStr (str_int n)))"
| "stringify felt process_short_strings (PStr s) =
     (if process_short_strings \<and> is_string (PStr s)
      then map_sum id (\<lambda>v. RStr (str_int v)) (felt (PStr s))
      else Inr (RStr s))"

definition prepare_params :: "(pyval \<Rightarrow> pyerr + int) \<Rightarrow> pyval option \<Rightarrow> pyerr + pyres" where
  "prepare_params felt params =
     (let params = (case params of None \<Rightarrow> PList [] | Some v \<Rightarrow> v)
      in stringify felt True params)"

subsection \<open>\<^verbatim>\<open>get_gateways\<close>\<close>

definition BUILD_DIRECTORY :: string where
  "BUILD_DIRECTORY = ''artifacts''"

definition ABIS_DIRECTORY :: string where
  "ABIS_DIRECTORY = BUILD_DIRECTORY @ ''/abis''"

definition NODE_FILENAME :: string where
  "NODE_FILENAME = ''node.json''"

text \<open>
  A dictionary from text to text, in insertion order; the keys are distinct. The file
  system maps a path to the content of the file there, if there is one.
\<close>

type_synonym pydict = "(string \<times> string) list"

type_synonym filesystem = "string \<rightharpoonup> string"

text \<open>
  \<^verbatim>\<open>json.dumps(d, indent=2)\<close> for such a dictionary: keys and values as JSON strings
  (\<^verbatim>\<open>ensure_ascii\<close> escaping), one member per line, indented by two blanks.
\<close>

definition hex_digit_char :: "nat \<Rightarrow> char" where
  "hex_digit_char d = ''0123456789abcdef'' ! d"

definition json_escape :: "char \<Rightarrow> string" where
  "json_escape c =
     (let k = (of_char c :: nat) in
      if c = CHR ''\"'' then [CHR 0x5C, CHR ''\"'']
      else if k = 92 then [CHR 0x5C, CHR 0x5C]
      else if k = 10 then [CHR 0x5C, CHR ''n'']
      else if k = 13 then [CHR 0x5C, CHR ''r'']
      else if k = 9 then [CHR 0x5C, CHR ''t'']
      else if k = 8 then [CHR 0x5C, CHR ''b'']
      else if k = 12 then [CHR 0x5C, CHR ''f'']
      else if k < 32 \<or> 126 < k
        then [CHR 0x5C, CHR ''u'', CHR ''0'', CHR ''0'',
              hex_digit_char (k div 16), hex_digit_char (k mod 16)]
      else [c])"

definition json_string :: "string \<Rightarrow> string" where
  "json_string s = [CHR ''\"''] @ concat (map json_escape s) @ [CHR ''\"'']"

fun join :: "string \<Rightarrow> string list \<Rightarrow> string" where
  "join sep [] = []"
| "join sep [x] = x"
| "join sep (x # y # ys) = x @ sep @ join sep (y # ys)"

definition json_dumps_indent2 :: "pydict \<Rightarrow> string" where
  "json_dumps_indent2 d =
     (if d = [] then ''{}''
      else ''{'' @ [CHR 0x0A] @
           join ('','' @ [CHR 0x0A])
             (map (\<lambda>(k, v). ''  '' @ json_string k @ '': '' @ json_string v) d) @
           [CHR 0x0A] @ ''}'')"

definition default_networks :: pydict where
  "default_networks =
     [(''localhost'', ''http://127.0.0.1:5050/''),
      (''goerli2'', ''https://alpha4-2.starknet.io''),
      (''integration'', ''https://external.integration.starknet.io'')]"

text \<open>
  Reading an existing file hands its content to \<^verbatim>\<open>json.load\<close>, the parameter \<open>load\<close>.
  \<^verbatim>\<open>FileNotFoundError\<close> is caught: the defaults are written and returned. The result is
  the file system afterwards and the value bound to \<^verbatim>\<open>GATEWAYS\<close>.
\<close>

definition get_gateways ::
  "(string \<Rightarrow> pyerr + pydict) \<Rightarrow> filesystem \<Rightarrow> filesystem \<times> (pyerr + pydict)" where
  "get_gateways load fs =
     (case fs NODE_FILENAME of
        Some content \<Rightarrow> (fs, load content)
      | None \<Rightarrow>
          (let networks = default_networks
           in (fs(NODE_FILENAME \<mapsto> json_dumps_indent2 networks), Inr networks)))"

subsection \<open>\<^verbatim>\<open>get_network_parameter_or_set_env\<close>\<close>

type_synonym environ = "string \<rightharpoonup> string"

text \<open>\<^verbatim>\<open>GATEWAYS.get(network)\<close> inside an f-string: the URL, or the text \<^verbatim>\<open>None\<close>.\<close>

definition format_get :: "pydict \<Rightarrow> string \<Rightarrow> string" where
  "format_get gateways name =
     (case map_of gateways name of None \<Rightarrow> ''None'' | Some url \<Rightarrow> url)"

definition get_network_parameter_or_set_env ::
  "pydict \<Rightarrow> string \<Rightarrow> environ \<Rightarrow> environ \<times> string list" where
  "get_network_parameter_or_set_env gateways network env =
     (if network = ''mainnet'' then (env(''STARKNET_NETWORK'' \<mapsto> ''alpha-mainnet''), [])
      else if network = ''goerli'' then (env(''STARKNET_NETWORK'' \<mapsto> ''alpha-goerli''), [])
      else (env, [''--gateway_url='' @ format_get gateways network,
                  ''--feeder_gateway_url='' @ format_get gateways network]))"

subsection \<open>\<^verbatim>\<open>run_command\<close>: assembling the command\<close>

text \<open>
  The keyword arguments of \<^verbatim>\<open>run_command\<close>; \<open>None\<close> is Python's \<^verbatim>\<open>None\<close>. The
  overriding path is a pair of directories. The fee, the token, the flag and the extra
  arguments are text.
\<close>

record run_args =
  operation :: string
  network_name :: string
  contract_name :: "string option"
  arguments :: "string list option"
  inputs :: "pyval option"
  signature :: "pyval option"
  max_fee :: "string option"
  query_flag :: "string option"
  overriding_path :: "(string \<times> string) option"
  mainnet_token :: "string option"

text \<open>
  \<^verbatim>\<open>command.extend(r)\<close> iterates over \<open>r\<close>: over the elements of a list, over the
  characters of a \<^verbatim>\<open>str\<close>.
\<close>

definition extend_with :: "pyres \<Rightarrow> pyres list" where
  "extend_with r = (case r of RList ts \<Rightarrow> ts | RStr s \<Rightarrow> map (\<lambda>c. RStr [c]) s)"

text \<open>
  The command is built by appending in the order of the source. An exception of
  \<^verbatim>\<open>prepare_params\<close> leaves the function before the network is resolved, so the
  environment is returned only with a finished command.
\<close>

definition build_command ::
  "(pyval \<Rightarrow> pyerr + int) \<Rightarrow> pydict \<Rightarrow> run_args \<Rightarrow> environ \<Rightarrow> pyerr + (environ \<times> pyres list)" where
  "build_command felt gateways a env =
     (let command = [RStr ''starknet'', RStr (operation a)];
          command =
            (case contract_name a of
               None \<Rightarrow> command
             | Some name \<Rightarrow>
                 (let base_path =
                        (case overriding_path a of
                           Some p \<Rightarrow> p
                         | None \<Rightarrow> (BUILD_DIRECTORY, ABIS_DIRECTORY));
                      contract = fst base_path @ ''/'' @ name @ ''.json''
                  in command @ [RStr ''--contract'', RStr contract]))
      in case (case inputs a of
                 None \<Rightarrow> Inr command
               | Some i \<Rightarrow>
                   map_sum id (\<lambda>r. command @ [RStr ''--inputs''] @ extend_with r)
                     (prepare_params felt (Some i))) of
           Inl e \<Rightarrow> Inl e
         | Inr command \<Rightarrow>
        (case (case signature a of
                 None \<Rightarrow> Inr command
               | Some sg \<Rightarrow>
                   map_sum id (\<lambda>r. command @ [RStr ''--signature''] @ extend_with r)
                     (prepare_params felt (Some sg))) of
           Inl e \<Rightarrow> Inl e
         | Inr command \<Rightarrow>
        (let command =
               (case max_fee a of
                  None \<Rightarrow> command
                | Some fee \<Rightarrow> command @ [RStr ''--max_fee'', RStr fee]);
             command =
               (case mainnet_token a of
                  None \<Rightarrow> command
                | Some tok \<Rightarrow> command @ [RStr ''--token'', RStr tok]);
             command =
               (case query_flag a of
                  None \<Rightarrow> command
                | Some q \<Rightarrow> command @ [RStr (''--'' @ q)]);
             command =
               (case arguments a of
                  None \<Rightarrow> command
                | Some args \<Rightarrow> command @ map RStr args);
             (env', extra_param) = get_network_parameter_or_set_env gateways (network_name a) env;
             command = command @ map RStr extra_param;
             command = command @ [RStr ''--no_wallet'']
         in Inr (env', command))))"

subsection \<open>\<^verbatim>\<open>run_command\<close>: running the tool\<close>

text \<open>
  What a run of the external tool leaves behind: its exit code and the bytes of its two
  output streams. Bytes are characters below 256. \<^verbatim>\<open>bytes.strip()\<close> removes the six
  ASCII blanks from both ends.
\<close>

record proc =
  returncode :: int
  stdout :: string
  stderr :: string

definition bytes_space :: "char \<Rightarrow> bool" where
  "bytes_space c = (of_char c \<in> {9, 10, 11, 12, 13, 32 :: nat})"

definition bytes_strip :: "string \<Rightarrow> string" where
  "bytes_strip b = rev (dropWhile bytes_space (rev (dropWhile bytes_space b)))"

text \<open>\<^verbatim>\<open>sub in text\<close>: the substring test.\<close>

fun contains :: "string \<Rightarrow> string \<Rightarrow> bool" where
  "contains sub [] = (sub = [])"
| "contains sub (c # cs) = (take (length sub) (c # cs) = sub \<or> contains sub cs)"

text \<open>The two hints that \<^verbatim>\<open>logging.error\<close> can print.\<close>

datatype log_msg = MaxFeeMissing | NotUsingAccount

definition is_RStr :: "pyres \<Rightarrow> bool" where
  "is_RStr r = (case r of RStr _ \<Rightarrow> True | RList _ \<Rightarrow> False)"

text \<open>
  The \<^verbatim>\<open>try\<close> block. The two runs of the tool are the parameters \<open>exec1\<close>
  (\<^verbatim>\<open>check_output\<close>) and \<open>exec2\<close> (\<^verbatim>\<open>Popen\<close> and \<^verbatim>\<open>communicate\<close>); either may raise
  instead of running the tool (\<^verbatim>\<open>OSError\<close> when the executable is missing), and
  \<^verbatim>\<open>subprocess\<close> raises \<^verbatim>\<open>TypeError\<close> for an argument that is not text. Only
  \<^verbatim>\<open>CalledProcessError\<close>, the non-zero exit code, is caught. \<open>decode\<close> is the UTF-8
  codec of \<^verbatim>\<open>bytes.decode\<close>. The result is the text returned and the hints logged.
\<close>

definition invoke ::
  "(string \<Rightarrow> pyerr + string) \<Rightarrow> (environ \<Rightarrow> pyres list \<Rightarrow> pyerr + proc) \<Rightarrow>
   (environ \<Rightarrow> pyres list \<Rightarrow> pyerr + proc) \<Rightarrow> environ \<Rightarrow> pyres list \<Rightarrow>
   pyerr + (string \<times> log_msg list)" where
  "invoke decode exec1 exec2 env command =
     (if \<not> list_all is_RStr command then Inl TypeError
      else case exec1 env command of
          Inl e \<Rightarrow> Inl e
        | Inr p \<Rightarrow>
            if returncode p = 0
            then map_sum id (\<lambda>text. (text, [])) (decode (bytes_strip (stdout p)))
            else (case exec2 env command of
                    Inl e \<Rightarrow> Inl e
                  | Inr q \<Rightarrow>
                      (case decode (stderr q) of
                         Inl e \<Rightarrow> Inl e
                       | Inr err_msg \<Rightarrow>
                           Inr ([],
                             if contains ''max_fee must be bigger than 0'' err_msg
                               then [MaxFeeMissing]
                             else if contains
                               ''transactions should go through the __execute__ entrypoint.''
                               err_msg
                               then [NotUsingAccount]
                             else []))))"

definition run_command ::
  "(pyval \<Rightarrow> pyerr + int) \<Rightarrow> (string \<Rightarrow> pyerr + string) \<Rightarrow> pydict \<Rightarrow>
   (environ \<Rightarrow> pyres list \<Rightarrow> pyerr + proc) \<Rightarrow> (environ \<Rightarrow> pyres list \<Rightarrow> pyerr + proc) \<Rightarrow>
   run_args \<Rightarrow> environ \<Rightarrow> environ \<times> (pyerr + (string \<times> log_msg list))" where
  "run_command felt decode gateways exec1 exec2 a env =
     (case build_command felt gateways a env of
        Inl e \<Rightarrow> (env, Inl e)
      | Inr (env', command) \<Rightarrow> (env', invoke decode exec1 exec2 env' command))"

subsection \<open>\<^verbatim>\<open>get_addresses_from_string\<close>\<close>

text \<open>
  \<^verbatim>\<open>int(text, base)\<close> on a \<^verbatim>\<open>str\<close> of arbitrary content. CPython hands a text of ASCII
  characters to the parser as it is; otherwise it first replaces every character from
  U+007F on: white space by a blank, a decimal digit by its ASCII digit, anything else
  by a question mark, which the parser rejects. The white space from U+007F on is listed.
\<close>

definition unicode_space :: "nat \<Rightarrow> bool" where
  "unicode_space cp =
     (cp \<in> {133, 160, 5760, 8232, 8233, 8239, 8287, 12288} \<or> (8192 \<le> cp \<and> cp \<le> 8202))"

definition to_ascii_char :: "nat \<Rightarrow> char" where
  "to_ascii_char cp =
     (if cp < 127 then char_of cp
      else if unicode_space cp then CHR '' ''
      else (case unicode_decimal cp of
              Some d \<Rightarrow> ''0123456789'' ! d
            | None \<Rightarrow> CHR ''?''))"

definition to_ascii :: "utext \<Rightarrow> string" where
  "to_ascii t = (if list_all (\<lambda>cp. cp < 128) t then map char_of t else map to_ascii_char t)"

definition int_text :: "nat \<Rightarrow> utext \<Rightarrow> pyerr + int" where
  "int_text b t = py_int b (to_ascii t)"

definition get_addresses_from_string :: "utext \<Rightarrow> pyerr + int set" where
  "get_addresses_from_string text =
     map_sum id set (collect (map (int_text 16) (findall_pattern text)))"

subsection \<open>Vocabulary of the properties\<close>

text \<open>A literal of the theory as text.\<close>

definition codepoints :: "string \<Rightarrow> utext" where
  "codepoints s = map of_char s"

text \<open>
  The matches of \<^verbatim>\<open>0x[C]{1,64}\<close> in a text, said without the scanner. A token starts
  where the text reads \<^verbatim>\<open>0x\<close> and a character of the class. A token is whole when its
  digits are 1 to 64 characters of the class and either there are 64 of them or the text
  after them does not go on with a character of the class. The matches of a text are
  \<open>ms\<close> when the text is, for each match in turn, a stretch in which no token starts,
  then the match as a whole token, and after the last match a stretch in which no token
  starts.
\<close>

definition starts_token :: "(nat \<Rightarrow> bool) \<Rightarrow> utext \<Rightarrow> bool" where
  "starts_token cls s =
     (case s of c0 # c1 # d # _ \<Rightarrow> c0 = 48 \<and> c1 = 120 \<and> cls d | _ \<Rightarrow> False)"

fun no_start :: "(nat \<Rightarrow> bool) \<Rightarrow> utext \<Rightarrow> utext \<Rightarrow> bool" where
  "no_start cls [] rest = True"
| "no_start cls (c # cs) rest = (\<not> starts_token cls (c # cs @ rest) \<and> no_start cls cs rest)"

definition whole_token :: "(nat \<Rightarrow> bool) \<Rightarrow> utext \<Rightarrow> utext \<Rightarrow> bool" where
  "whole_token cls ds post =
     (ds \<noteq> [] \<and> list_all cls ds \<and> length ds \<le> 64 \<and>
      (length ds = 64 \<or> (case post of [] \<Rightarrow> True | c # _ \<Rightarrow> \<not> cls c)))"

fun tokens_in :: "(nat \<Rightarrow> bool) \<Rightarrow> utext \<Rightarrow> utext list \<Rightarrow> bool" where
  "tokens_in cls x [] = no_start cls x []"
| "tokens_in cls x (m # ms) =
     (\<exists>pre ds post. x = pre @ 48 # 120 # ds @ post \<and> m = 48 # 120 # ds \<and>
        no_start cls pre (48 # 120 # ds @ post) \<and> whole_token cls ds post \<and>
        tokens_in cls post ms)"

text \<open>
  The lower-case hex digits of ASCII, the class that the specification names; the value
  of a character of \<^verbatim>\<open>[\da-f]\<close> as a digit; the number that a token denotes in base 16.
\<close>

definition class_ascii_hex :: "nat \<Rightarrow> bool" where
  "class_ascii_hex cp = ((48 \<le> cp \<and> cp \<le> 57) \<or> (97 \<le> cp \<and> cp \<le> 102))"

definition digit16 :: "nat \<Rightarrow> nat" where
  "digit16 cp = (case unicode_decimal cp of Some d \<Rightarrow> d | None \<Rightarrow> cp - 87)"

definition token_value :: "utext \<Rightarrow> int" where
  "token_value m = int (foldl (\<lambda>acc cp. acc * 16 + digit16 cp) 0 (drop 2 m))"

text \<open>
  The classification in the words of the specification: Integer if the text parses in base
  10, else HexAddress if it starts with \<^verbatim>\<open>0x\<close> and parses in base 16, else ShortString.
\<close>

datatype param_class = Integer | HexAddress | ShortString

definition parses :: "nat \<Rightarrow> string \<Rightarrow> bool" where
  "parses b s = (case py_int b s of Inl _ \<Rightarrow> False | Inr _ \<Rightarrow> True)"

definition classify_spec :: "string \<Rightarrow> param_class" where
  "classify_spec s =
     (if parses 10 s then Integer
      else if take 2 s = ''0x'' \<and> parses 16 s then HexAddress
      else ShortString)"

definition is_decdigit :: "char \<Rightarrow> bool" where
  "is_decdigit c = (c \<in> set ''0123456789'')"

definition is_anyhexdig :: "char \<Rightarrow> bool" where
  "is_anyhexdig c = (c \<in> set ''0123456789abcdefABCDEF'')"

text \<open>
  A flat sequence of text tokens, as a command needs it; the scalars and the elements of
  a parameter value; and the relation between a value and a result of the same nesting.
\<close>

definition is_flat :: "pyres \<Rightarrow> bool" where
  "is_flat r = (case r of RList ts \<Rightarrow> list_all is_RStr ts | RStr _ \<Rightarrow> False)"

definition is_scalar :: "pyval \<Rightarrow> bool" where
  "is_scalar x = (case x of PInt _ \<Rightarrow> True | PStr _ \<Rightarrow> True | _ \<Rightarrow> False)"

definition elements :: "pyval \<Rightarrow> pyval list option" where
  "elements x = (case x of PList xs \<Rightarrow> Some xs | PTuple xs \<Rightarrow> Some xs | _ \<Rightarrow> None)"

fun same_shape :: "pyval \<Rightarrow> pyres \<Rightarrow> bool" where
  "same_shape (PList xs) (RList rs) = list_all2 same_shape xs rs"
| "same_shape (PTuple xs) (RList rs) = list_all2 same_shape xs rs"
| "same_shape (PInt _) (RStr _) = True"
| "same_shape (PStr _) (RStr _) = True"
| "same_shape _ _ = False"

text \<open>
  Modelled from the spec: \<^verbatim>\<open>str_to_felt\<close> of \<^verbatim>\<open>nile.utils\<close>, which is not among the
  sources. The specification describes it as packing the bytes of a short string into one
  integer, big-endian. It serves as the concrete \<open>felt\<close> of the examples.
\<close>

definition str_to_felt_spec :: "pyval \<Rightarrow> pyerr + int" where
  "str_to_felt_spec x =
     (case x of
        PStr s \<Rightarrow> Inr (int (foldl (\<lambda>acc c. acc * 256 + of_char c) 0 s))
      | _ \<Rightarrow> Inl TypeError)"

text \<open>A result of \<^verbatim>\<open>stringify\<close> taken as an input again.\<close>

fun as_value :: "pyres \<Rightarrow> pyval" where
  "as_value (RStr s) = PStr s"
| "as_value (RList rs) = PList (map as_value rs)"

text \<open>The text of the default configuration file, line by line.\<close>

definition default_node_json :: string where
  "default_node_json =
     ''{'' @ [CHR 0x0A] @
     ''  '' @ [CHR 0x22] @ ''localhost'' @ [CHR 0x22] @ '': '' @
       [CHR 0x22] @ ''http://127.0.0.1:5050/'' @ [CHR 0x22] @ '','' @ [CHR 0x0A] @
     ''  '' @ [CHR 0x22] @ ''goerli2'' @ [CHR 0x22] @ '': '' @
       [CHR 0x22] @ ''https://alpha4-2.starknet.io'' @ [CHR 0x22] @ '','' @ [CHR 0x0A] @
     ''  '' @ [CHR 0x22] @ ''integration'' @ [CHR 0x22] @ '': '' @
       [CHR 0x22] @ ''https://external.integration.starknet.io'' @ [CHR 0x22] @ [CHR 0x0A] @
     ''}''"

text \<open>
  The command in the words of the specification: the components in their fixed order,
  each one empty when its input is absent.
\<close>

definition contract_part :: "run_args \<Rightarrow> pyres list" where
  "contract_part a =
     (case contract_name a of
        None \<Rightarrow> []
      | Some name \<Rightarrow>
          [RStr ''--contract'',
           RStr ((case overriding_path a of Some p \<Rightarrow> fst p | None \<Rightarrow> ''artifacts'')
                 @ ''/'' @ name @ ''.json'')])"

definition encoded_part ::
  "(pyval \<Rightarrow> pyerr + int) \<Rightarrow> string \<Rightarrow> pyval option \<Rightarrow> pyerr + pyres list" where
  "encoded_part felt flag v =
     (case v of
        None \<Rightarrow> Inr []
      | Some i \<Rightarrow> map_sum id (\<lambda>r. RStr flag # extend_with r) (prepare_params felt (Some i)))"

definition flag_value_part :: "string \<Rightarrow> string option \<Rightarrow> pyres list" where
  "flag_value_part flag v = (case v of None \<Rightarrow> [] | Some x \<Rightarrow> [RStr flag, RStr x])"

definition command_spec ::
  "(pyval \<Rightarrow> pyerr + int) \<Rightarrow> pydict \<Rightarrow> run_args \<Rightarrow> pyerr + pyres list" where
  "command_spec felt gateways a =
     (case encoded_part felt ''--inputs'' (inputs a) of
        Inl e \<Rightarrow> Inl e
      | Inr inputs_part \<Rightarrow>
     (case encoded_part felt ''--signature'' (signature a) of
        Inl e \<Rightarrow> Inl e
      | Inr signature_part \<Rightarrow>
          Inr ([RStr ''starknet'', RStr (operation a)]
               @ contract_part a
               @ inputs_part
               @ signature_part
               @ flag_value_part ''--max_fee'' (max_fee a)
               @ flag_value_part ''--token'' (mainnet_token a)
               @ (case query_flag a of None \<Rightarrow> [] | Some q \<Rightarrow> [RStr (''--'' @ q)])
               @ (case arguments a of None \<Rightarrow> [] | Some args \<Rightarrow> map RStr args)
               @ map RStr (snd (get_network_parameter_or_set_env gateways (network_name a) Map.empty))
               @ [RStr ''--no_wallet''])))"

text \<open>
  Stripping at the end only, as the specification words the success case; and the decoder
  of the examples, which is UTF-8 on ASCII bytes (there the identity) and rejects every
  other byte.
\<close>

definition bytes_rstrip :: "string \<Rightarrow> string" where
  "bytes_rstrip b = rev (dropWhile bytes_space (rev b))"

definition decode_ascii :: "string \<Rightarrow> pyerr + string" where
  "decode_ascii b =
     (if list_all (\<lambda>c. (of_char c :: nat) < 128) b then Inr b else Inl UnicodeError)"

text \<open>Two runs of the tool for the examples: one that prints and exits with 0, one that cannot start.\<close>

definition tool_prints_ok :: "environ \<Rightarrow> pyres list \<Rightarrow> pyerr + proc" where
  "tool_prints_ok env command = Inr \<lparr>returncode = 0, stdout = '' ok '', stderr = []\<rparr>"

definition tool_missing :: "environ \<Rightarrow> pyres list \<Rightarrow> pyerr + proc" where
  "tool_missing env command = Inl OSError"

section \<open>Properties\<close>

subsection \<open>Classification of parameters\<close>

lemma digit_in_base_facts: "digit_in_base b c \<Longrightarrow> c \<noteq> CHR ''_'' \<and> \<not> int_space c \<and> c \<noteq> CHR ''+'' \<and> c \<noteq> CHR ''-''"
  by (auto simp: digit_in_base_def digit_value_def int_space_def Let_def split: if_splits option.splits)

lemma scan_digits_all:
  "list_all (digit_in_base b) ds \<Longrightarrow>
   scan_digits b False n acc ds =
     Some (foldl (\<lambda>acc c. acc * b + the (digit_value c)) acc ds, n + length ds, [])"
  by (induction ds arbitrary: n acc) (auto dest: digit_in_base_facts)

lemma is_decdigit_base: "is_decdigit c \<Longrightarrow> digit_in_base 10 c \<and> c \<noteq> CHR ''x'' \<and> c \<noteq> CHR ''X''"
  by (auto simp: is_decdigit_def digit_in_base_def digit_value_def)

lemma is_anyhexdig_base: "is_anyhexdig c \<Longrightarrow> digit_in_base 16 c"
  by (auto simp: is_anyhexdig_def digit_in_base_def digit_value_def)

lemma py_int_plain:
  "dropWhile int_space s = s \<Longrightarrow> strip_sign s = (False, s) \<Longrightarrow> strip_prefix16 b s = s2 \<Longrightarrow>
   take 1 s2 \<noteq> ''_'' \<Longrightarrow> scan_digits b False 0 0 s2 = Some (acc, n, []) \<Longrightarrow> n \<noteq> 0 \<Longrightarrow>
   py_int b s = Inr (int acc)"
  by (simp add: py_int_def)

lemma parses_decimal:
  assumes "ds \<noteq> []" "list_all is_decdigit ds"
  shows "parses 10 ds"
proof -
  from assms obtain d r where ds: "ds = d # r" by (cases ds) auto
  from assms have all10: "list_all (digit_in_base 10) ds"
    by (auto simp: list_all_iff dest: is_decdigit_base)
  with ds have d: "digit_in_base 10 d" by simp
  have sp: "dropWhile int_space ds = ds"
    using digit_in_base_facts [OF d] by (simp add: ds)
  have sg: "strip_sign ds = (False, ds)"
    using digit_in_base_facts [OF d] by (simp add: ds strip_sign_def)
  have pf: "strip_prefix16 10 ds = ds"
    by (simp add: strip_prefix16_def split: list.splits)
  have sc: "scan_digits 10 False 0 0 ds =
      Some (foldl (\<lambda>acc c. acc * 10 + the (digit_value c)) 0 ds, length ds, [])"
    using scan_digits_all [OF all10, of 0 0] by (simp only: add_0)
  have t1: "take 1 ds \<noteq> ''_''"
    using digit_in_base_facts [OF d] by (simp add: ds)
  have "length ds \<noteq> 0" by (simp add: ds)
  from py_int_plain [OF sp sg pf t1 sc this] show ?thesis
    by (simp add: parses_def)
qed

lemma not_parses10_0x: "\<not> parses 10 (CHR ''0'' # CHR ''x'' # r)"
  by (simp add: parses_def py_int_def strip_sign_def strip_prefix16_def int_space_def
        digit_in_base_def digit_value_def)

lemma parses_hex_prefixed:
  assumes "ds \<noteq> []" "list_all is_anyhexdig ds"
  shows "parses 16 (''0x'' @ ds)"
proof -
  from assms obtain d r where ds: "ds = d # r" by (cases ds) auto
  from assms have all16: "list_all (digit_in_base 16) ds"
    by (auto simp: list_all_iff dest: is_anyhexdig_base)
  with ds have d: "digit_in_base 16 d" by simp
  have sp: "dropWhile int_space (''0x'' @ ds) = ''0x'' @ ds"
    by (simp add: int_space_def)
  have sg: "strip_sign (''0x'' @ ds) = (False, ''0x'' @ ds)"
    by (simp add: strip_sign_def)
  have pf: "strip_prefix16 16 (''0x'' @ ds) = ds"
    using digit_in_base_facts [OF d] by (simp add: strip_prefix16_def ds)
  have sc: "scan_digits 16 False 0 0 ds =
      Some (foldl (\<lambda>acc c. acc * 16 + the (digit_value c)) 0 ds, length ds, [])"
    using scan_digits_all [OF all16, of 0 0] by (simp only: add_0)
  have t1: "take 1 ds \<noteq> ''_''"
    using digit_in_base_facts [OF d] by (simp add: ds)
  have "length ds \<noteq> 0" by (simp add: ds)
  from py_int_plain [OF sp sg pf t1 sc this] show ?thesis
    by (simp add: parses_def)
qed

lemma is_string_PStr:
  "is_string (PStr s) = (\<not> parses 10 s \<and> \<not> (take 2 s = ''0x'' \<and> parses 16 s))"
  by (auto simp: is_string_def try_int_def try_hex_def parses_def split: sum.splits)

text \<open>
  C2. On text, \<^verbatim>\<open>is_string\<close> follows the fall-through policy: text that parses in base
  10 is Integer and not a string; otherwise text that starts with \<^verbatim>\<open>0x\<close> and parses in
  base 16 is HexAddress and not a string; all other text is ShortString and a string. So
  whenever one of the two numeric tests succeeds the text is not a ShortString. Runs of
  decimal digits are Integer, and \<^verbatim>\<open>0x\<close> followed by hex digits is HexAddress.
\<close>

theorem is_string_classification:
  "is_string (PStr s) = (classify_spec s = ShortString)
   \<and> (parses 10 s \<longrightarrow> classify_spec s = Integer \<and> \<not> is_string (PStr s))
   \<and> (\<not> parses 10 s \<and> take 2 s = ''0x'' \<and> parses 16 s \<longrightarrow>
        classify_spec s = HexAddress \<and> \<not> is_string (PStr s))
   \<and> (\<not> parses 10 s \<and> \<not> (take 2 s = ''0x'' \<and> parses 16 s) \<longrightarrow>
        classify_spec s = ShortString \<and> is_string (PStr s))
   \<and> (s \<noteq> [] \<and> list_all is_decdigit s \<longrightarrow> classify_spec s = Integer)
   \<and> (s \<noteq> [] \<and> list_all is_anyhexdig s \<longrightarrow> classify_spec (''0x'' @ s) = HexAddress)"
proof (intro conjI)
  show "is_string (PStr s) = (classify_spec s = ShortString)"
    by (simp add: is_string_PStr classify_spec_def)
  show "parses 10 s \<longrightarrow> classify_spec s = Integer \<and> \<not> is_string (PStr s)"
    by (simp add: is_string_PStr classify_spec_def)
  show "\<not> parses 10 s \<and> take 2 s = ''0x'' \<and> parses 16 s \<longrightarrow>
        classify_spec s = HexAddress \<and> \<not> is_string (PStr s)"
    by (simp add: is_string_PStr classify_spec_def)
  show "\<not> parses 10 s \<and> \<not> (take 2 s = ''0x'' \<and> parses 16 s) \<longrightarrow>
        classify_spec s = ShortString \<and> is_string (PStr s)"
    by (simp add: is_string_PStr classify_spec_def)
  show "s \<noteq> [] \<and> list_all is_decdigit s \<longrightarrow> classify_spec s = Integer"
    by (simp add: classify_spec_def parses_decimal)
  show "s \<noteq> [] \<and> list_all is_anyhexdig s \<longrightarrow> classify_spec (''0x'' @ s) = HexAddress"
    using not_parses10_0x [of s] parses_hex_prefixed [of s]
    by (simp add: classify_spec_def)
qed

theorem is_string_classification_witness:
  "classify_spec ''123'' = Integer \<and> \<not> is_string (PStr ''123'')
   \<and> classify_spec ''0x1f'' = HexAddress \<and> \<not> is_string (PStr ''0x1f'')
   \<and> classify_spec ''abc'' = ShortString \<and> is_string (PStr ''abc'')
   \<and> classify_spec ''0x1F'' = HexAddress"
proof -
  note ev = parses_def py_int_def strip_sign_def strip_prefix16_def int_space_def
    digit_in_base_def digit_value_def
  have a: "parses 10 ''123''" by (simp add: ev)
  have b: "\<not> parses 10 ''0x1f'' \<and> take 2 ''0x1f'' = ''0x'' \<and> parses 16 ''0x1f''"
    by (simp add: ev)
  have c: "\<not> parses 10 ''abc'' \<and> \<not> (take 2 ''abc'' = ''0x'' \<and> parses 16 ''abc'')"
    by (simp add: ev)
  have d: "''1F'' \<noteq> [] \<and> list_all is_anyhexdig ''1F''"
    by (simp add: is_anyhexdig_def)
  from is_string_classification [of "''123''"] a
  have 1: "classify_spec ''123'' = Integer \<and> \<not> is_string (PStr ''123'')" by blast
  from is_string_classification [of "''0x1f''"] b
  have 2: "classify_spec ''0x1f'' = HexAddress \<and> \<not> is_string (PStr ''0x1f'')" by blast
  from is_string_classification [of "''abc''"] c
  have 3: "classify_spec ''abc'' = ShortString \<and> is_string (PStr ''abc'')" by blast
  from is_string_classification [of "''1F''"] d
  have 4: "classify_spec ''0x1F'' = HexAddress" by simp
  from 1 2 3 4 show ?thesis by blast
qed

subsection \<open>The encoder\<close>

lemma map_sum_id_Inr: "map_sum id f v = Inr r \<longleftrightarrow> (\<exists>w. v = Inr w \<and> r = f w)"
  by (cases v) auto

lemma map_sum_id_Inl: "map_sum id f v = Inl e \<longleftrightarrow> v = Inl e"
  by (cases v) auto

lemma collect_Cons_Inr:
  "collect (r # rs) = Inr vs \<longleftrightarrow> (\<exists>v ws. r = Inr v \<and> collect rs = Inr ws \<and> vs = v # ws)"
  by (cases r; cases "collect rs") auto

lemma collect_map_Inr:
  "collect (map g xs) = Inr vs \<longleftrightarrow> list_all2 (\<lambda>x v. g x = Inr v) xs vs"
proof (induction xs arbitrary: vs)
  case Nil
  show ?case by (cases vs) auto
next
  case (Cons x xs)
  have "collect (map g (x # xs)) = Inr vs \<longleftrightarrow>
        (\<exists>v ws. g x = Inr v \<and> collect (map g xs) = Inr ws \<and> vs = v # ws)"
    by (simp only: list.map collect_Cons_Inr)
  also have "\<dots> \<longleftrightarrow> (\<exists>v ws. g x = Inr v \<and> list_all2 (\<lambda>x v. g x = Inr v) xs ws \<and> vs = v # ws)"
    by (simp only: Cons.IH)
  also have "\<dots> \<longleftrightarrow> list_all2 (\<lambda>x v. g x = Inr v) (x # xs) vs"
    by (cases vs) auto
  finally show ?case .
qed

lemma stringify_seq:
  "elements x = Some xs \<Longrightarrow>
   stringify felt p x = Inr r \<longleftrightarrow> (\<exists>rs. r = RList rs \<and> list_all2 (\<lambda>x v. stringify felt p x = Inr v) xs rs)"
  by (cases x) (auto simp: elements_def map_sum_id_Inr collect_map_Inr)

lemma stringify_scalar: "is_scalar x \<Longrightarrow> stringify felt p x = Inr r \<Longrightarrow> is_RStr r"
  by (cases x) (auto simp: is_scalar_def is_RStr_def map_sum_id_Inr split: if_splits)

lemma stringify_nonscalar: "\<not> is_scalar x \<Longrightarrow> stringify felt p x = Inr r \<Longrightarrow> \<not> is_RStr r"
  by (cases x) (auto simp: is_scalar_def is_RStr_def map_sum_id_Inr split: if_splits)

lemma stringify_same_shape: "stringify felt p x = Inr r \<Longrightarrow> same_shape x r"
proof (induction x arbitrary: r)
  case (PInt n)
  then show ?case by (auto simp: map_sum_id_Inr split: if_splits)
next
  case (PStr s)
  then show ?case by (auto simp: map_sum_id_Inr split: if_splits)
next
  case (PList xs)
  from PList.prems obtain rs where r: "r = RList rs"
    and all: "list_all2 (\<lambda>x v. stringify felt p x = Inr v) xs rs"
    using stringify_seq [of "PList xs" xs felt p r] by (auto simp: elements_def)
  from all PList.IH have "list_all2 same_shape xs rs"
    by (auto simp: list_all2_conv_all_nth)
  with r show ?case by simp
next
  case (PTuple xs)
  from PTuple.prems obtain rs where r: "r = RList rs"
    and all: "list_all2 (\<lambda>x v. stringify felt p x = Inr v) xs rs"
    using stringify_seq [of "PTuple xs" xs felt p r] by (auto simp: elements_def)
  from all PTuple.IH have "list_all2 same_shape xs rs"
    by (auto simp: list_all2_conv_all_nth)
  with r show ?case by simp
qed

lemma stringify_flat_iff:
  assumes "stringify felt p x = Inr r"
  shows "is_flat r \<longleftrightarrow> (\<exists>xs. elements x = Some xs \<and> list_all is_scalar xs)"
proof (cases "elements x")
  case None
  then have "is_scalar x" by (cases x) (auto simp: elements_def is_scalar_def)
  from stringify_scalar [OF this assms] None show ?thesis
    by (auto simp: is_flat_def is_RStr_def split: pyres.splits)
next
  case (Some xs)
  from stringify_seq [OF Some, of felt p r] assms obtain rs where r: "r = RList rs"
    and all: "list_all2 (\<lambda>x v. stringify felt p x = Inr v) xs rs" by auto
  have "list_all is_RStr rs \<longleftrightarrow> list_all is_scalar xs"
  proof
    assume a: "list_all is_RStr rs"
    show "list_all is_scalar xs"
      unfolding list_all_length
    proof (intro allI impI)
      fix i assume i: "i < length xs"
      with all have s: "stringify felt p (xs ! i) = Inr (rs ! i)" and "i < length rs"
        by (auto simp: list_all2_conv_all_nth)
      with a have "is_RStr (rs ! i)" by (simp add: list_all_length)
      with s show "is_scalar (xs ! i)" using stringify_nonscalar by blast
    qed
  next
    assume a: "list_all is_scalar xs"
    show "list_all is_RStr rs"
      unfolding list_all_length
    proof (intro allI impI)
      fix i assume i: "i < length rs"
      with all have s: "stringify felt p (xs ! i) = Inr (rs ! i)" and "i < length xs"
        by (auto simp: list_all2_conv_all_nth)
      with a have "is_scalar (xs ! i)" by (simp add: list_all_length)
      with s show "is_RStr (rs ! i)" using stringify_scalar by blast
    qed
  qed
  with r Some show ?thesis by (simp add: is_flat_def)
qed

text \<open>
  C3, as stated, fails: a list inside a list stays a list, it is not flattened into the
  sequence of tokens.
\<close>

theorem stringify_nested_counterexample:
  "stringify str_to_felt_spec True (PList [PInt 1, PList [PInt 2, PInt 3]]) =
     Inr (RList [RStr ''1'', RList [RStr ''2'', RStr ''3'']])
   \<and> prepare_params str_to_felt_spec (Some (PList [PInt 1, PList [PInt 2, PInt 3]])) =
     Inr (RList [RStr ''1'', RList [RStr ''2'', RStr ''3'']])
   \<and> \<not> is_flat (RList [RStr ''1'', RList [RStr ''2'', RStr ''3'']])"
  by (simp add: prepare_params_def is_string_def try_int_def try_hex_def str_int_def nat_digits.simps
        is_flat_def is_RStr_def)

text \<open>
  C3, amended. \<^verbatim>\<open>stringify\<close> recurses element by element and keeps the nesting: a list
  or tuple becomes the list of the results of its elements, in order, and a scalar becomes
  text. The result is a flat sequence of text tokens exactly when the input is a list or
  tuple whose elements are all scalars. \<^verbatim>\<open>prepare_params\<close> on a present input is
  \<^verbatim>\<open>stringify\<close> with short-string processing.
\<close>

theorem stringify_preserves_nesting:
  "stringify felt p (PList xs) = map_sum id RList (collect (map (stringify felt p) xs))
   \<and> stringify felt p (PTuple xs) = map_sum id RList (collect (map (stringify felt p) xs))
   \<and> (stringify felt p x = Inr r \<longrightarrow> same_shape x r)
   \<and> (stringify felt p x = Inr r \<longrightarrow>
        (is_flat r \<longleftrightarrow> (\<exists>ys. elements x = Some ys \<and> list_all is_scalar ys)))
   \<and> (elements x = Some ys \<and> stringify felt p x = Inr r \<longrightarrow>
        (\<exists>rs. r = RList rs \<and> list_all2 (\<lambda>y v. stringify felt p y = Inr v) ys rs))
   \<and> prepare_params felt (Some x) = stringify felt True x"
proof (intro conjI)
  show "stringify felt p x = Inr r \<longrightarrow> same_shape x r"
    by (simp add: stringify_same_shape)
  show "stringify felt p x = Inr r \<longrightarrow>
        (is_flat r \<longleftrightarrow> (\<exists>ys. elements x = Some ys \<and> list_all is_scalar ys))"
    using stringify_flat_iff by blast
  show "elements x = Some ys \<and> stringify felt p x = Inr r \<longrightarrow>
        (\<exists>rs. r = RList rs \<and> list_all2 (\<lambda>y v. stringify felt p y = Inr v) ys rs)"
    using stringify_seq [of x ys felt p r] by blast
qed (simp_all add: prepare_params_def)

theorem stringify_preserves_nesting_witness:
  "stringify str_to_felt_spec True (PTuple [PInt 1, PStr ''0x2'', PStr ''abc'']) =
     Inr (RList [RStr ''1'', RStr ''0x2'', RStr ''6382179''])
   \<and> is_flat (RList [RStr ''1'', RStr ''0x2'', RStr ''6382179''])
   \<and> same_shape (PTuple [PInt 1, PStr ''0x2'', PStr ''abc''])
        (RList [RStr ''1'', RStr ''0x2'', RStr ''6382179''])"
proof -
  note ev = is_string_def try_int_def try_hex_def str_int_def nat_digits.simps py_int_def strip_sign_def
    strip_prefix16_def int_space_def digit_in_base_def digit_value_def str_to_felt_spec_def
  have s: "stringify str_to_felt_spec True (PTuple [PInt 1, PStr ''0x2'', PStr ''abc'']) =
     Inr (RList [RStr ''1'', RStr ''0x2'', RStr ''6382179''])"
    by (simp add: ev)
  have e: "elements (PTuple [PInt 1, PStr ''0x2'', PStr ''abc'']) =
      Some [PInt 1, PStr ''0x2'', PStr ''abc''] \<and>
      list_all is_scalar [PInt 1, PStr ''0x2'', PStr ''abc'']"
    by (simp add: elements_def is_scalar_def)
  note T = stringify_preserves_nesting [of str_to_felt_spec True _
      "PTuple [PInt 1, PStr ''0x2'', PStr ''abc'']"
      "RList [RStr ''1'', RStr ''0x2'', RStr ''6382179'']"]
  from T s have 1: "same_shape (PTuple [PInt 1, PStr ''0x2'', PStr ''abc''])
        (RList [RStr ''1'', RStr ''0x2'', RStr ''6382179''])" by blast
  from T s e have 2: "is_flat (RList [RStr ''1'', RStr ''0x2'', RStr ''6382179''])" by blast
  from s 1 2 show ?thesis by blast
qed

text \<open>
  C8. Text that classifies as Integer or HexAddress is encoded to itself whatever
  \<^verbatim>\<open>str_to_felt\<close> is, so the felt encoding is not applied to it and encoding the result
  again changes nothing; the felt encoding is applied exactly to text that classifies as
  ShortString, and only when short-string processing is on.
\<close>

theorem stringify_idempotent_on_numeric:
  "(classify_spec s \<noteq> ShortString \<longrightarrow> stringify felt True (PStr s) = Inr (RStr s))
   \<and> (classify_spec s \<noteq> ShortString \<longrightarrow>
        (case stringify felt True (PStr s) of
           Inl e \<Rightarrow> Inl e
         | Inr r \<Rightarrow> stringify felt True (as_value r)) = stringify felt True (PStr s))
   \<and> (classify_spec s \<noteq> ShortString \<longrightarrow>
        stringify felt True (PStr s) = stringify felt' True (PStr s))
   \<and> (classify_spec s = ShortString \<longrightarrow>
        stringify felt True (PStr s) = map_sum id (\<lambda>v. RStr (str_int v)) (felt (PStr s)))
   \<and> stringify felt False (PStr s) = Inr (RStr s)"
proof -
  have c: "is_string (PStr s) = (classify_spec s = ShortString)"
    by (simp add: is_string_PStr classify_spec_def)
  show ?thesis by (simp add: c)
qed

theorem stringify_idempotent_on_numeric_witness:
  "stringify str_to_felt_spec True (PStr ''123'') = Inr (RStr ''123'')
   \<and> stringify str_to_felt_spec True (PStr ''0x1f'') = Inr (RStr ''0x1f'')
   \<and> stringify str_to_felt_spec True (as_value (RStr ''0x1f'')) = Inr (RStr ''0x1f'')
   \<and> stringify str_to_felt_spec True (PStr ''abc'') = Inr (RStr ''6382179'')"
proof -
  note ev = parses_def py_int_def strip_sign_def strip_prefix16_def int_space_def
    digit_in_base_def digit_value_def classify_spec_def
  have a: "classify_spec ''123'' \<noteq> ShortString" by (simp add: ev)
  have b: "classify_spec ''0x1f'' \<noteq> ShortString" by (simp add: ev)
  have c: "classify_spec ''abc'' = ShortString" by (simp add: ev)
  have f: "map_sum id (\<lambda>v. RStr (str_int v)) (str_to_felt_spec (PStr ''abc'')) = Inr (RStr ''6382179'')"
    by (simp add: str_to_felt_spec_def str_int_def nat_digits.simps)
  from stringify_idempotent_on_numeric [of "''123''" str_to_felt_spec] a
  have 1: "stringify str_to_felt_spec True (PStr ''123'') = Inr (RStr ''123'')" by blast
  from stringify_idempotent_on_numeric [of "''0x1f''" str_to_felt_spec] b
  have 2: "stringify str_to_felt_spec True (PStr ''0x1f'') = Inr (RStr ''0x1f'')" by blast
  from 2 have 3: "stringify str_to_felt_spec True (as_value (RStr ''0x1f'')) = Inr (RStr ''0x1f'')"
    by simp
  from stringify_idempotent_on_numeric [of "''abc''" str_to_felt_spec] c f
  have 4: "stringify str_to_felt_spec True (PStr ''abc'') = Inr (RStr ''6382179'')" by simp
  from 1 2 3 4 show ?thesis by blast
qed

subsection \<open>Network resolution\<close>

text \<open>
  C6. For \<^verbatim>\<open>mainnet\<close> and \<^verbatim>\<open>goerli\<close> the environment variable \<^verbatim>\<open>STARKNET_NETWORK\<close> is
  set to \<^verbatim>\<open>alpha-mainnet\<close> and \<^verbatim>\<open>alpha-goerli\<close> and no argument is returned. Any other name
  returns exactly two arguments, the gateway and the feeder gateway, both with the URL
  configured for the name, or both with the text \<^verbatim>\<open>None\<close> when the name is not configured.
\<close>

theorem get_network_parameter_or_set_env_cases:
  "get_network_parameter_or_set_env gateways ''mainnet'' env =
     (env(''STARKNET_NETWORK'' \<mapsto> ''alpha-mainnet''), [])
   \<and> get_network_parameter_or_set_env gateways ''goerli'' env =
     (env(''STARKNET_NETWORK'' \<mapsto> ''alpha-goerli''), [])
   \<and> (name \<noteq> ''mainnet'' \<and> name \<noteq> ''goerli'' \<and> map_of gateways name = Some url \<longrightarrow>
        snd (get_network_parameter_or_set_env gateways name env) =
          [''--gateway_url='' @ url, ''--feeder_gateway_url='' @ url])
   \<and> (name \<noteq> ''mainnet'' \<and> name \<noteq> ''goerli'' \<and> map_of gateways name = None \<longrightarrow>
        snd (get_network_parameter_or_set_env gateways name env) =
          [''--gateway_url=None'', ''--feeder_gateway_url=None''])"
  by (simp add: get_network_parameter_or_set_env_def format_get_def)

theorem get_network_parameter_or_set_env_cases_witness:
  "snd (get_network_parameter_or_set_env default_networks ''localhost'' Map.empty) =
     [''--gateway_url=http://127.0.0.1:5050/'', ''--feeder_gateway_url=http://127.0.0.1:5050/'']
   \<and> snd (get_network_parameter_or_set_env default_networks ''custom'' Map.empty) =
     [''--gateway_url=None'', ''--feeder_gateway_url=None'']
   \<and> fst (get_network_parameter_or_set_env default_networks ''mainnet'' Map.empty) ''STARKNET_NETWORK''
       = Some ''alpha-mainnet''
   \<and> snd (get_network_parameter_or_set_env default_networks ''mainnet'' Map.empty) = []"
proof -
  have a: "''localhost'' \<noteq> ''mainnet'' \<and> ''localhost'' \<noteq> ''goerli'' \<and>
      map_of default_networks ''localhost'' = Some ''http://127.0.0.1:5050/''"
    by (simp add: default_networks_def)
  have b: "''custom'' \<noteq> ''mainnet'' \<and> ''custom'' \<noteq> ''goerli'' \<and>
      map_of default_networks ''custom'' = None"
    by (simp add: default_networks_def)
  from get_network_parameter_or_set_env_cases
    [of default_networks Map.empty "''localhost''" "''http://127.0.0.1:5050/''"] a
  have 1: "snd (get_network_parameter_or_set_env default_networks ''localhost'' Map.empty) =
     [''--gateway_url=http://127.0.0.1:5050/'', ''--feeder_gateway_url=http://127.0.0.1:5050/'']"
    by simp
  from get_network_parameter_or_set_env_cases [of default_networks Map.empty "''custom''"] b
  have 2: "snd (get_network_parameter_or_set_env default_networks ''custom'' Map.empty) =
     [''--gateway_url=None'', ''--feeder_gateway_url=None'']"
    by simp
  from get_network_parameter_or_set_env_cases [of default_networks Map.empty]
  have 3: "get_network_parameter_or_set_env default_networks ''mainnet'' Map.empty =
     (Map.empty(''STARKNET_NETWORK'' \<mapsto> ''alpha-mainnet''), [])" by blast
  from 1 2 3 show ?thesis by simp
qed

text \<open>
  C10. Only the two reserved names touch the environment, and they change nothing but
  \<^verbatim>\<open>STARKNET_NETWORK\<close>; every other name leaves the whole environment as it was. For the
  two reserved names the list of arguments is empty.
\<close>

theorem get_network_parameter_or_set_env_frame:
  "(name \<noteq> ''mainnet'' \<and> name \<noteq> ''goerli'' \<longrightarrow>
      fst (get_network_parameter_or_set_env gateways name env) = env)
   \<and> (\<forall>var. var \<noteq> ''STARKNET_NETWORK'' \<longrightarrow>
        fst (get_network_parameter_or_set_env gateways name env) var = env var)
   \<and> (name = ''mainnet'' \<or> name = ''goerli'' \<longrightarrow>
        snd (get_network_parameter_or_set_env gateways name env) = []
        \<and> fst (get_network_parameter_or_set_env gateways name env) ''STARKNET_NETWORK'' \<noteq> None)
   \<and> (fst (get_network_parameter_or_set_env gateways name env) \<noteq> env \<longrightarrow>
        name = ''mainnet'' \<or> name = ''goerli'')"
  by (auto simp: get_network_parameter_or_set_env_def)

theorem get_network_parameter_or_set_env_frame_witness:
  "fst (get_network_parameter_or_set_env default_networks ''goerli2''
          [''STARKNET_NETWORK'' \<mapsto> ''alpha-mainnet'', ''HOME'' \<mapsto> ''/root'']) =
     [''STARKNET_NETWORK'' \<mapsto> ''alpha-mainnet'', ''HOME'' \<mapsto> ''/root'']
   \<and> fst (get_network_parameter_or_set_env default_networks ''goerli'' [''HOME'' \<mapsto> ''/root''])
       ''HOME'' = Some ''/root''
   \<and> snd (get_network_parameter_or_set_env default_networks ''goerli'' [''HOME'' \<mapsto> ''/root'']) = []"
proof -
  have a: "''goerli2'' \<noteq> ''mainnet'' \<and> ''goerli2'' \<noteq> ''goerli''" by simp
  have b: "''HOME'' \<noteq> ''STARKNET_NETWORK''" by simp
  from get_network_parameter_or_set_env_frame [of "''goerli2''" default_networks
      "[''STARKNET_NETWORK'' \<mapsto> ''alpha-mainnet'', ''HOME'' \<mapsto> ''/root'']"] a
  have 1: "fst (get_network_parameter_or_set_env default_networks ''goerli2''
          [''STARKNET_NETWORK'' \<mapsto> ''alpha-mainnet'', ''HOME'' \<mapsto> ''/root'']) =
     [''STARKNET_NETWORK'' \<mapsto> ''alpha-mainnet'', ''HOME'' \<mapsto> ''/root'']" by blast
  note T = get_network_parameter_or_set_env_frame [of "''goerli''" default_networks
      "[''HOME'' \<mapsto> ''/root'']"]
  from T b have 2: "fst (get_network_parameter_or_set_env default_networks ''goerli''
      [''HOME'' \<mapsto> ''/root'']) ''HOME'' = Some ''/root''" by simp
  from T have 3: "snd (get_network_parameter_or_set_env default_networks ''goerli''
      [''HOME'' \<mapsto> ''/root'']) = []" by blast
  from 1 2 3 show ?thesis by blast
qed

subsection \<open>The configuration file\<close>

lemma json_dumps_default: "json_dumps_indent2 default_networks = default_node_json"
  by (simp add: json_dumps_indent2_def default_networks_def default_node_json_def
        json_string_def json_escape_def)

text \<open>
  C7. When \<^verbatim>\<open>node.json\<close> does not exist, \<^verbatim>\<open>get_gateways\<close> does not fail: it creates the
  file with the three default entries (\<^verbatim>\<open>localhost\<close>, \<^verbatim>\<open>goerli2\<close>, \<^verbatim>\<open>integration\<close>), leaves
  every other file alone and returns the same three entries, which are then the mapping
  that network resolution uses.
\<close>

theorem get_gateways_bootstrap:
  "fs NODE_FILENAME = None \<longrightarrow>
     snd (get_gateways load fs) = Inr default_networks
     \<and> fst (get_gateways load fs) = fs(NODE_FILENAME \<mapsto> default_node_json)
     \<and> length default_networks = 3
     \<and> map fst default_networks = [''localhost'', ''goerli2'', ''integration'']
     \<and> (\<forall>gw. snd (get_gateways load fs) = Inr gw \<longrightarrow>
          snd (get_network_parameter_or_set_env gw ''localhost'' env) =
            [''--gateway_url=http://127.0.0.1:5050/'',
             ''--feeder_gateway_url=http://127.0.0.1:5050/''])"
  by (simp add: get_gateways_def json_dumps_default)
     (simp add: default_networks_def get_network_parameter_or_set_env_def format_get_def)

theorem get_gateways_bootstrap_witness:
  "snd (get_gateways (\<lambda>_. Inl ValueError) Map.empty) = Inr default_networks
   \<and> fst (get_gateways (\<lambda>_. Inl ValueError) Map.empty) ''node.json'' = Some default_node_json"
proof -
  have a: "(Map.empty :: filesystem) NODE_FILENAME = None" by simp
  from get_gateways_bootstrap [of Map.empty "\<lambda>_. Inl ValueError"] a
  show ?thesis by (simp add: NODE_FILENAME_def)
qed

subsection \<open>Assembling the command\<close>

lemma resolve_args_env:
  "snd (get_network_parameter_or_set_env gateways name env) =
   snd (get_network_parameter_or_set_env gateways name env')"
  by (simp add: get_network_parameter_or_set_env_def)

lemma opt_append:
  "(case x of None \<Rightarrow> c | Some v \<Rightarrow> c @ f v) = c @ (case x of None \<Rightarrow> [] | Some v \<Rightarrow> f v)"
  by (cases x) simp_all

lemma enc_step:
  "(case v of
      None \<Rightarrow> Inr c
    | Some i \<Rightarrow> map_sum id (\<lambda>r. c @ [RStr flag] @ extend_with r) (prepare_params felt (Some i))) =
   map_sum id (\<lambda>p. c @ p) (encoded_part felt flag v)"
proof (cases v)
  case None
  then show ?thesis by (simp add: encoded_part_def)
next
  case (Some i)
  then show ?thesis
    by (cases "prepare_params felt (Some i)") (simp_all add: encoded_part_def)
qed

lemma case_map_sum:
  "(case map_sum id f x of Inl e \<Rightarrow> Inl e | Inr c \<Rightarrow> K c) =
   (case x of Inl e \<Rightarrow> Inl e | Inr p \<Rightarrow> K (f p))"
  by (cases x) simp_all

lemma build_command_eq:
  "build_command felt gateways a env =
     map_sum id (\<lambda>c. (fst (get_network_parameter_or_set_env gateways (network_name a) env), c))
       (command_spec felt gateways a)"
proof -
  have c1: "(case contract_name a of
               None \<Rightarrow> []
             | Some name \<Rightarrow>
                 [RStr ''--contract'',
                  RStr (fst (case overriding_path a of
                               None \<Rightarrow> (BUILD_DIRECTORY, ABIS_DIRECTORY)
                             | Some p \<Rightarrow> p) @ ''/'' @ name @ ''.json'')]) =
            contract_part a"
    by (cases "contract_name a"; cases "overriding_path a")
       (simp_all add: contract_part_def BUILD_DIRECTORY_def)
  have fv: "\<And>c flag v. (case v of None \<Rightarrow> c | Some x \<Rightarrow> c @ [RStr flag, RStr x]) =
      c @ flag_value_part flag v"
    by (simp add: flag_value_part_def opt_append)
  show ?thesis
    unfolding build_command_def Let_def enc_step case_map_sum fv opt_append c1
      command_spec_def split_beta
      resolve_args_env [of gateways "network_name a" env Map.empty]
    by (cases "encoded_part felt ''--inputs'' (inputs a)";
        cases "encoded_part felt ''--signature'' (signature a)") (simp_all add: c1)
qed

text \<open>
  C4. The command is the tool and the operation followed, in this order, by the contract
  path, the encoded inputs, the encoded signature, the fee, the token, the query flag, the
  extra arguments, the network arguments and \<^verbatim>\<open>--no_wallet\<close>; a component whose input is
  absent contributes nothing. The contract path is
  \<^verbatim>\<open>{base}/{contract_name}.json\<close> with the first directory of the overriding pair as
  base when there is one and \<^verbatim>\<open>artifacts\<close> otherwise. The command does not depend on the
  environment, so a repeated call builds the same list.
\<close>

theorem build_command_token_order:
  "map_sum id snd (build_command felt gateways a env) = command_spec felt gateways a
   \<and> map_sum id snd (build_command felt gateways a env) =
       map_sum id snd (build_command felt gateways a env')
   \<and> (encoded_part felt ''--inputs'' (inputs a) = Inr inputs_part \<and>
       encoded_part felt ''--signature'' (signature a) = Inr signature_part \<longrightarrow>
       map_sum id snd (build_command felt gateways a env) =
         Inr ([RStr ''starknet'', RStr (operation a)]
              @ contract_part a
              @ inputs_part
              @ signature_part
              @ flag_value_part ''--max_fee'' (max_fee a)
              @ flag_value_part ''--token'' (mainnet_token a)
              @ (case query_flag a of None \<Rightarrow> [] | Some q \<Rightarrow> [RStr (''--'' @ q)])
              @ (case arguments a of None \<Rightarrow> [] | Some args \<Rightarrow> map RStr args)
              @ map RStr (snd (get_network_parameter_or_set_env gateways (network_name a) env))
              @ [RStr ''--no_wallet'']))"
proof -
  have 1: "map_sum id snd (build_command felt gateways a e) = command_spec felt gateways a" for e
    unfolding build_command_eq by (cases "command_spec felt gateways a") simp_all
  have 3: "encoded_part felt ''--inputs'' (inputs a) = Inr inputs_part \<and>
       encoded_part felt ''--signature'' (signature a) = Inr signature_part \<longrightarrow>
       command_spec felt gateways a =
         Inr ([RStr ''starknet'', RStr (operation a)]
              @ contract_part a
              @ inputs_part
              @ signature_part
              @ flag_value_part ''--max_fee'' (max_fee a)
              @ flag_value_part ''--token'' (mainnet_token a)
              @ (case query_flag a of None \<Rightarrow> [] | Some q \<Rightarrow> [RStr (''--'' @ q)])
              @ (case arguments a of None \<Rightarrow> [] | Some args \<Rightarrow> map RStr args)
              @ map RStr (snd (get_network_parameter_or_set_env gateways (network_name a) env))
              @ [RStr ''--no_wallet''])"
    unfolding command_spec_def resolve_args_env [of gateways "network_name a" env Map.empty]
    by simp
  from 1 3 show ?thesis by simp
qed

theorem build_command_token_order_witness:
  "map_sum id snd
     (build_command str_to_felt_spec default_networks
        \<lparr>operation = ''invoke'', network_name = ''localhost'', contract_name = Some ''token'',
         arguments = Some [''--address'', ''0x1''], inputs = Some (PList [PInt 1, PStr ''abc'']),
         signature = Some (PList [PInt 7]), max_fee = Some ''5'',
         query_flag = Some ''estimate_fee'', overriding_path = Some (''out'', ''out/abis''),
         mainnet_token = Some ''tok''\<rparr> Map.empty) =
   Inr [RStr ''starknet'', RStr ''invoke'', RStr ''--contract'', RStr ''out/token.json'',
        RStr ''--inputs'', RStr ''1'', RStr ''6382179'', RStr ''--signature'', RStr ''7'',
        RStr ''--max_fee'', RStr ''5'', RStr ''--token'', RStr ''tok'', RStr ''--estimate_fee'',
        RStr ''--address'', RStr ''0x1'',
        RStr ''--gateway_url=http://127.0.0.1:5050/'',
        RStr ''--feeder_gateway_url=http://127.0.0.1:5050/'', RStr ''--no_wallet'']
   \<and> map_sum id snd
     (build_command str_to_felt_spec default_networks
        \<lparr>operation = ''call'', network_name = ''mainnet'', contract_name = Some ''token'',
         arguments = None, inputs = None, signature = None, max_fee = None,
         query_flag = None, overriding_path = None, mainnet_token = None\<rparr> Map.empty) =
   Inr [RStr ''starknet'', RStr ''call'', RStr ''--contract'', RStr ''artifacts/token.json'',
        RStr ''--no_wallet'']"
proof -
  note ev = encoded_part_def prepare_params_def is_string_def try_int_def try_hex_def
    str_int_def nat_digits.simps py_int_def strip_sign_def strip_prefix16_def int_space_def
    digit_in_base_def digit_value_def str_to_felt_spec_def extend_with_def
  note ev2 = contract_part_def flag_value_part_def get_network_parameter_or_set_env_def
    format_get_def default_networks_def
  define a1 where "a1 = \<lparr>operation = ''invoke'', network_name = ''localhost'',
         contract_name = Some ''token'',
         arguments = Some [''--address'', ''0x1''], inputs = Some (PList [PInt 1, PStr ''abc'']),
         signature = Some (PList [PInt 7]), max_fee = Some ''5'',
         query_flag = Some ''estimate_fee'', overriding_path = Some (''out'', ''out/abis''),
         mainnet_token = Some ''tok''\<rparr>"
  define a2 where "a2 = \<lparr>operation = ''call'', network_name = ''mainnet'',
         contract_name = Some ''token'',
         arguments = None, inputs = None, signature = None, max_fee = None,
         query_flag = None, overriding_path = None, mainnet_token = (None :: string option)\<rparr>"
  have i1: "encoded_part str_to_felt_spec ''--inputs'' (inputs a1) =
      Inr [RStr ''--inputs'', RStr ''1'', RStr ''6382179''] \<and>
      encoded_part str_to_felt_spec ''--signature'' (signature a1) =
      Inr [RStr ''--signature'', RStr ''7'']"
    by (simp add: a1_def ev)
  have i2: "encoded_part str_to_felt_spec ''--inputs'' (inputs a2) = Inr [] \<and>
      encoded_part str_to_felt_spec ''--signature'' (signature a2) = Inr []"
    by (simp add: a2_def ev)
  from build_command_token_order [where felt = str_to_felt_spec and gateways = default_networks
      and a = a1 and env = Map.empty and env' = Map.empty
      and inputs_part = "[RStr ''--inputs'', RStr ''1'', RStr ''6382179'']"
      and signature_part = "[RStr ''--signature'', RStr ''7'']", THEN conjunct2, THEN conjunct2] i1
  have 1: "map_sum id snd (build_command str_to_felt_spec default_networks a1 Map.empty) =
   Inr [RStr ''starknet'', RStr ''invoke'', RStr ''--contract'', RStr ''out/token.json'',
        RStr ''--inputs'', RStr ''1'', RStr ''6382179'', RStr ''--signature'', RStr ''7'',
        RStr ''--max_fee'', RStr ''5'', RStr ''--token'', RStr ''tok'', RStr ''--estimate_fee'',
        RStr ''--address'', RStr ''0x1'',
        RStr ''--gateway_url=http://127.0.0.1:5050/'',
        RStr ''--feeder_gateway_url=http://127.0.0.1:5050/'', RStr ''--no_wallet'']"
    by (simp add: a1_def ev2)
  from build_command_token_order [where felt = str_to_felt_spec and gateways = default_networks
      and a = a2 and env = Map.empty and env' = Map.empty
      and inputs_part = "[]" and signature_part = "[]", THEN conjunct2, THEN conjunct2] i2
  have 2: "map_sum id snd (build_command str_to_felt_spec default_networks a2 Map.empty) =
   Inr [RStr ''starknet'', RStr ''call'', RStr ''--contract'', RStr ''artifacts/token.json'',
        RStr ''--no_wallet'']"
    by (simp add: a2_def ev2)
  from 1 2 show ?thesis unfolding a1_def a2_def by blast
qed

subsection \<open>Running the tool\<close>

lemma take_length_eq_iff: "take (length sub) s = sub \<longleftrightarrow> (\<exists>post. s = sub @ post)"
proof
  assume "take (length sub) s = sub"
  then have "s = sub @ drop (length sub) s" by (metis append_take_drop_id)
  then show "\<exists>post. s = sub @ post" ..
next
  assume "\<exists>post. s = sub @ post"
  then show "take (length sub) s = sub" by auto
qed

lemma contains_iff: "contains sub s \<longleftrightarrow> (\<exists>pre post. s = pre @ sub @ post)"
proof (induction s)
  case Nil
  then show ?case by auto
next
  case (Cons c cs)
  have "(\<exists>pre post. c # cs = pre @ sub @ post) \<longleftrightarrow>
        (\<exists>post. c # cs = sub @ post) \<or> (\<exists>pre post. cs = pre @ sub @ post)"
  proof
    assume "\<exists>pre post. c # cs = pre @ sub @ post"
    then obtain pre post where e: "c # cs = pre @ sub @ post" by blast
    show "(\<exists>post. c # cs = sub @ post) \<or> (\<exists>pre post. cs = pre @ sub @ post)"
    proof (cases pre)
      case Nil
      with e show ?thesis by auto
    next
      case (Cons d pre')
      with e have "cs = pre' @ sub @ post" by simp
      then show ?thesis by blast
    qed
  next
    assume "(\<exists>post. c # cs = sub @ post) \<or> (\<exists>pre post. cs = pre @ sub @ post)"
    then show "\<exists>pre post. c # cs = pre @ sub @ post"
    proof
      assume "\<exists>post. c # cs = sub @ post"
      then obtain post where "c # cs = [] @ sub @ post" by auto
      then show ?thesis by blast
    next
      assume "\<exists>pre post. cs = pre @ sub @ post"
      then obtain pre post where "c # cs = (c # pre) @ sub @ post" by auto
      then show ?thesis by blast
    qed
  qed
  with Cons.IH show ?case
    by (simp only: contains.simps take_length_eq_iff)
qed

lemma bytes_strip_decomp:
  "\<exists>pre post. b = pre @ bytes_strip b @ post \<and> list_all bytes_space pre \<and>
     list_all bytes_space post"
proof -
  define m where "m = dropWhile bytes_space b"
  define t where "t = takeWhile bytes_space (rev m)"
  have 1: "b = takeWhile bytes_space b @ m" by (simp add: m_def)
  have "rev m = t @ dropWhile bytes_space (rev m)" by (simp add: t_def)
  then have "rev (rev m) = rev (t @ dropWhile bytes_space (rev m))" by simp
  then have 2: "m = bytes_strip b @ rev t" by (simp add: bytes_strip_def m_def)
  have 3: "list_all bytes_space (takeWhile bytes_space b)"
    by (simp add: list_all_iff) (meson set_takeWhileD)
  have 4: "list_all bytes_space (rev t)"
    unfolding t_def by (simp add: list_all_iff) (meson set_takeWhileD)
  from 1 2 have "b = takeWhile bytes_space b @ bytes_strip b @ rev t" by simp
  with 3 4 show ?thesis by blast
qed

lemma bytes_strip_ends:
  assumes "bytes_strip b \<noteq> []"
  shows "\<not> bytes_space (hd (bytes_strip b)) \<and> \<not> bytes_space (last (bytes_strip b))"
proof -
  define m where "m = dropWhile bytes_space b"
  define d where "d = dropWhile bytes_space (rev m)"
  have s: "bytes_strip b = rev d" by (simp add: bytes_strip_def m_def d_def)
  with assms have dne: "d \<noteq> []" by simp
  then have "\<not> bytes_space (hd d)" unfolding d_def by (rule hd_dropWhile)
  with dne s have l: "\<not> bytes_space (last (bytes_strip b))" by (simp add: last_rev)
  from dne have mne: "m \<noteq> []" by (auto simp: d_def)
  then have hm: "\<not> bytes_space (hd m)" unfolding m_def by (rule hd_dropWhile)
  have "rev m = takeWhile bytes_space (rev m) @ d" by (simp add: d_def)
  then have "rev (rev m) = rev (takeWhile bytes_space (rev m) @ d)" by simp
  then have "m = rev d @ rev (takeWhile bytes_space (rev m))" by simp
  with dne have "hd m = hd (rev d)" by (metis hd_append2 rev_is_Nil_conv)
  with hm s l show ?thesis by simp
qed

text \<open>
  C5, as stated, fails in the success case: \<^verbatim>\<open>strip()\<close> removes white space at the front
  of the output as well, so the text returned is not the output with only its trailing
  white space removed.
\<close>

theorem invoke_strip_counterexample:
  "invoke decode_ascii tool_prints_ok tool_missing Map.empty
     [RStr ''starknet'', RStr ''call'', RStr ''--no_wallet''] = Inr (''ok'', [])
   \<and> tool_prints_ok Map.empty [RStr ''starknet'', RStr ''call'', RStr ''--no_wallet''] =
       Inr \<lparr>returncode = 0, stdout = '' ok '', stderr = []\<rparr>
   \<and> decode_ascii (bytes_rstrip '' ok '') = Inr '' ok''
   \<and> ''ok'' \<noteq> '' ok''"
  by (simp add: invoke_def is_RStr_def bytes_strip_def bytes_rstrip_def bytes_space_def
        decode_ascii_def tool_prints_ok_def)

text \<open>
  C5, amended. \<^verbatim>\<open>run_command\<close> runs the command it has assembled. For a command of
  text tokens that the tool runs: on exit code zero
  \<^verbatim>\<open>run_command\<close> returns the standard output with the ASCII white space at both ends
  removed, decoded as UTF-8, and logs nothing. On any other exit code, when the second run
  yields a standard error that decodes, it returns the empty text whatever that error says;
  the error text only selects the hint that is logged, so the return value does not tell
  the causes of failure apart.
\<close>

theorem invoke_result:
  "(build_command felt gateways a env0 = Inr (env, command) \<longrightarrow>
      run_command felt decode gateways exec1 exec2 a env0 =
        (env, invoke decode exec1 exec2 env command))
   \<and> (list_all is_RStr command \<and> exec1 env command = Inr p \<longrightarrow>
     (returncode p = 0 \<longrightarrow>
        invoke decode exec1 exec2 env command =
          map_sum id (\<lambda>text. (text, [])) (decode (bytes_strip (stdout p)))
        \<and> (\<exists>pre post. stdout p = pre @ bytes_strip (stdout p) @ post \<and>
              list_all bytes_space pre \<and> list_all bytes_space post)
        \<and> (bytes_strip (stdout p) \<noteq> [] \<longrightarrow>
              \<not> bytes_space (hd (bytes_strip (stdout p))) \<and>
              \<not> bytes_space (last (bytes_strip (stdout p)))))
     \<and> (returncode p \<noteq> 0 \<and> exec2 env command = Inr q \<and> decode (stderr q) = Inr err_msg \<longrightarrow>
        invoke decode exec1 exec2 env command =
          Inr ([],
               if \<exists>pre post. err_msg = pre @ ''max_fee must be bigger than 0'' @ post
                 then [MaxFeeMissing]
               else if \<exists>pre post. err_msg =
                   pre @ ''transactions should go through the __execute__ entrypoint.'' @ post
                 then [NotUsingAccount]
               else [])
        \<and> map_sum id fst (invoke decode exec1 exec2 env command) = Inr []))"
  using bytes_strip_decomp [of "stdout p"] bytes_strip_ends [of "stdout p"]
  by (simp add: invoke_def contains_iff run_command_def)

theorem invoke_result_witness:
  "invoke decode_ascii
     (\<lambda>_ _. Inr \<lparr>returncode = 0, stdout = '' ok '', stderr = []\<rparr>)
     (\<lambda>_ _. Inl OSError) Map.empty [RStr ''starknet''] = Inr (''ok'', [])
   \<and> map_sum id fst (invoke decode_ascii
     (\<lambda>_ _. Inr \<lparr>returncode = 1, stdout = [], stderr = []\<rparr>)
     (\<lambda>_ _. Inr \<lparr>returncode = 1, stdout = [], stderr = ''boom''\<rparr>)
     Map.empty [RStr ''starknet'']) = Inr []"
proof -
  have a: "list_all is_RStr [RStr ''starknet'']" by (simp add: is_RStr_def)
  have d1: "decode_ascii (bytes_strip '' ok '') = Inr ''ok''"
    by (simp add: bytes_strip_def bytes_space_def decode_ascii_def)
  have d2: "decode_ascii ''boom'' = Inr ''boom''" by (simp add: decode_ascii_def)
  from invoke_result [where command = "[RStr ''starknet'']" and env = Map.empty
      and decode = decode_ascii
      and ?exec1.0 = "\<lambda>_ _. Inr \<lparr>returncode = 0, stdout = '' ok '', stderr = []\<rparr>"
      and ?exec2.0 = "\<lambda>_ _. Inl OSError"
      and p = "\<lparr>returncode = 0, stdout = '' ok '', stderr = []\<rparr>", THEN conjunct2] a d1
  have 1: "invoke decode_ascii
     (\<lambda>_ _. Inr \<lparr>returncode = 0, stdout = '' ok '', stderr = []\<rparr>)
     (\<lambda>_ _. Inl OSError) Map.empty [RStr ''starknet''] = Inr (''ok'', [])"
    by simp
  from invoke_result [where command = "[RStr ''starknet'']" and env = Map.empty
      and decode = decode_ascii
      and ?exec1.0 = "\<lambda>_ _. Inr \<lparr>returncode = 1, stdout = [], stderr = []\<rparr>"
      and ?exec2.0 = "\<lambda>_ _. Inr \<lparr>returncode = 1, stdout = [], stderr = ''boom''\<rparr>"
      and p = "\<lparr>returncode = 1, stdout = [], stderr = []\<rparr>"
      and q = "\<lparr>returncode = 1, stdout = [], stderr = ''boom''\<rparr>"
      and err_msg = "''boom''", THEN conjunct2] a d2
  have 2: "map_sum id fst (invoke decode_ascii
     (\<lambda>_ _. Inr \<lparr>returncode = 1, stdout = [], stderr = []\<rparr>)
     (\<lambda>_ _. Inr \<lparr>returncode = 1, stdout = [], stderr = ''boom''\<rparr>)
     Map.empty [RStr ''starknet'']) = Inr []"
    by simp
  from 1 2 show ?thesis by blast
qed

subsection \<open>Matches of the pattern\<close>

lemma takeWhile_nonempty_iff: "takeWhile P (take (Suc n) r) \<noteq> [] \<longleftrightarrow> (case r of [] \<Rightarrow> False | d # _ \<Rightarrow> P d)"
  by (cases r) auto

lemma match_0x_None_iff: "match_0x cls s = None \<longleftrightarrow> \<not> starts_token cls s"
proof -
  have "takeWhile cls (take 64 r) \<noteq> [] \<longleftrightarrow> (case r of [] \<Rightarrow> False | d # _ \<Rightarrow> cls d)" for r
    using takeWhile_nonempty_iff [of cls 63 r] by simp
  then show ?thesis
    by (auto simp: match_0x_def starts_token_def Let_def split: list.splits)
qed

lemma match_0x_Some:
  assumes "match_0x cls s = Some (m, rest)"
  shows "\<exists>ds. m = 48 # 120 # ds \<and> s = m @ rest \<and> whole_token cls ds rest"
proof -
  from assms obtain r where s: "s = 48 # 120 # r"
    by (auto simp: match_0x_def split: list.splits if_splits)
  define t where "t = take 64 r"
  define ds where "ds = takeWhile cls t"
  from assms s have m: "m = 48 # 120 # ds" and rest: "rest = drop (length ds) r" and ne: "ds \<noteq> []"
    by (auto simp: match_0x_def Let_def ds_def t_def split: if_splits)
  have len: "length ds \<le> length t" unfolding ds_def by (rule length_takeWhile_le)
  have lt: "length t \<le> 64" by (simp add: t_def)
  have allc: "list_all cls ds"
    unfolding ds_def list_all_iff using set_takeWhileD by fastforce
  have "ds = take (length ds) t" unfolding ds_def by (metis takeWhile_eq_take)
  with len lt have dsr: "ds = take (length ds) r" by (simp add: t_def min_def)
  then have r: "r = ds @ rest" unfolding rest by (metis append_take_drop_id)
  have stop: "length ds = 64 \<or> (case rest of [] \<Rightarrow> True | c # _ \<Rightarrow> \<not> cls c)"
  proof (cases "length ds < length t")
    case True
    then have nc: "\<not> cls (t ! length ds)" unfolding ds_def by (rule nth_length_takeWhile)
    from True have "t ! length ds = r ! length ds" by (simp add: t_def)
    also from True have "length ds < length r" by (simp add: t_def)
    then have "r ! length ds = hd rest" unfolding rest by (simp add: hd_drop_conv_nth)
    finally have "\<not> cls (hd rest)" using nc by simp
    moreover from True have "rest \<noteq> []" unfolding rest by (simp add: t_def)
    ultimately show ?thesis by (cases rest) auto
  next
    case False
    with len have e: "length ds = length t" by simp
    show ?thesis
    proof (cases "length r \<le> 64")
      case True
      with e have "length ds = length r" by (simp add: t_def)
      then have "rest = []" unfolding rest by simp
      then show ?thesis by simp
    next
      case False
      with e show ?thesis by (simp add: t_def)
    qed
  qed
  from s m r ne allc len lt stop show ?thesis
    by (auto simp: whole_token_def)
qed

lemma match_0x_whole:
  assumes "whole_token cls ds post"
  shows "match_0x cls (48 # 120 # ds @ post) = Some (48 # 120 # ds, post)"
proof -
  from assms have ne: "ds \<noteq> []" and allc: "\<forall>c \<in> set ds. cls c" and len: "length ds \<le> 64"
    and stop: "length ds = 64 \<or> (case post of [] \<Rightarrow> True | c # _ \<Rightarrow> \<not> cls c)"
    by (auto simp: whole_token_def list_all_iff)
  have "take 64 (ds @ post) = ds @ take (64 - length ds) post" using len by simp
  moreover have "takeWhile cls (ds @ take (64 - length ds) post) =
      ds @ takeWhile cls (take (64 - length ds) post)"
    using allc by (simp add: takeWhile_append2)
  moreover have "takeWhile cls (take (64 - length ds) post) = []"
    using stop by (cases post; cases "64 - length ds") auto
  ultimately have "takeWhile cls (take 64 (ds @ post)) = ds" by simp
  with ne show ?thesis by (simp add: match_0x_def)
qed

lemma findall_0x_skip: "no_start cls pre rest \<Longrightarrow> findall_0x cls (pre @ rest) = findall_0x cls rest"
  by (induction pre) (simp_all add: match_0x_None_iff [symmetric])

lemma findall_0x_Nil_iff: "findall_0x cls x = [] \<longleftrightarrow> no_start cls x []"
proof
  assume "no_start cls x []"
  from findall_0x_skip [OF this] show "findall_0x cls x = []" by simp
next
  assume "findall_0x cls x = []"
  then show "no_start cls x []"
  proof (induction cls x rule: findall_0x.induct)
    case (1 cls)
    then show ?case by simp
  next
    case (2 cls c cs)
    from "2.prems" have n: "match_0x cls (c # cs) = None"
      by (cases "match_0x cls (c # cs)") auto
    with "2.prems" have "findall_0x cls cs = []" by simp
    with 2 n have "no_start cls cs []" by simp
    with n show ?case by (simp add: match_0x_None_iff)
  qed
qed

lemma findall_0x_Cons:
  "findall_0x cls x = m # ms \<Longrightarrow>
   \<exists>pre ds post. x = pre @ 48 # 120 # ds @ post \<and> m = 48 # 120 # ds \<and>
     no_start cls pre (48 # 120 # ds @ post) \<and> whole_token cls ds post \<and>
     findall_0x cls post = ms"
proof (induction cls x rule: findall_0x.induct)
  case (1 cls)
  then show ?case by simp
next
  case (2 cls c cs)
  show ?case
  proof (cases "match_0x cls (c # cs)")
    case None
    with "2.prems" have "findall_0x cls cs = m # ms" by simp
    with 2 None obtain pre ds post where p: "cs = pre @ 48 # 120 # ds @ post" "m = 48 # 120 # ds"
      "no_start cls pre (48 # 120 # ds @ post)" "whole_token cls ds post"
      "findall_0x cls post = ms"
      by blast
    from None p(1) have "\<not> starts_token cls (c # pre @ 48 # 120 # ds @ post)"
      by (simp add: match_0x_None_iff)
    with p(3) have "no_start cls (c # pre) (48 # 120 # ds @ post)" by simp
    with p show ?thesis
      by (intro exI [of _ "c # pre"] exI [of _ ds] exI [of _ post]) simp
  next
    case (Some a)
    obtain m' rest where a: "a = (m', rest)" by (cases a)
    with Some "2.prems" have eq: "m' = m" "findall_0x cls rest = ms" by auto
    from match_0x_Some [of cls "c # cs" m' rest] Some a obtain ds where
      d: "m' = 48 # 120 # ds" "c # cs = m' @ rest" "whole_token cls ds rest" by auto
    with eq show ?thesis
      by (intro exI [of _ "[]"] exI [of _ ds] exI [of _ rest]) simp
  qed
qed

lemma findall_0x_tokens_iff: "findall_0x cls x = ms \<longleftrightarrow> tokens_in cls x ms"
proof (induction ms arbitrary: x)
  case Nil
  then show ?case by (simp add: findall_0x_Nil_iff)
next
  case (Cons m ms)
  show ?case
  proof
    assume "findall_0x cls x = m # ms"
    from findall_0x_Cons [OF this] Cons.IH show "tokens_in cls x (m # ms)" by auto
  next
    assume "tokens_in cls x (m # ms)"
    then obtain pre ds post where p: "x = pre @ 48 # 120 # ds @ post" "m = 48 # 120 # ds"
      "no_start cls pre (48 # 120 # ds @ post)" "whole_token cls ds post"
      "tokens_in cls post ms"
      by auto
    from p(5) Cons.IH have f: "findall_0x cls post = ms" by simp
    from findall_0x_skip [OF p(3)] p(1)
    have "findall_0x cls x = findall_0x cls (48 # 120 # ds @ post)" by simp
    also have "\<dots> = m # findall_0x cls post"
      using match_0x_whole [OF p(4)] p(2) by simp
    finally show "findall_0x cls x = m # ms" using f by simp
  qed
qed

lemma match_0x_cong:
  assumes "\<forall>cp \<in> set s. cls cp = cls' cp"
  shows "match_0x cls s = match_0x cls' s"
proof (cases "\<exists>r. s = 48 # 120 # r")
  case True
  then obtain r where s: "s = 48 # 120 # r" by blast
  have "takeWhile cls (take 64 r) = takeWhile cls' (take 64 r)"
    using assms s by (intro takeWhile_cong) (auto dest: in_set_takeD)
  then show ?thesis by (simp add: match_0x_def s)
next
  case False
  then show ?thesis by (auto simp: match_0x_def split: list.splits)
qed

lemma findall_0x_cong:
  "\<forall>cp \<in> set x. cls cp = cls' cp \<Longrightarrow> findall_0x cls x = findall_0x cls' x"
proof (induction cls x rule: findall_0x.induct)
  case (1 cls)
  then show ?case by simp
next
  case (2 cls c cs)
  from match_0x_cong [OF "2.prems"] have e: "match_0x cls' (c # cs) = match_0x cls (c # cs)"
    by simp
  show ?case
  proof (cases "match_0x cls (c # cs)")
    case None
    with 2 e show ?thesis by simp
  next
    case (Some a)
    obtain m rest where a: "a = (m, rest)" by (cases a)
    from match_0x_Some [of cls "c # cs" m rest] Some a have "c # cs = m @ rest" by auto
    then have "set rest \<subseteq> set (c # cs)" by (metis set_append sup_ge2)
    with "2.prems" have "\<forall>cp \<in> set rest. cls cp = cls' cp" by blast
    then have "findall_0x cls rest = findall_0x cls' rest"
      using "2.IH"(2) [OF Some a [symmetric]] by simp
    with Some a e show ?thesis by simp
  qed
qed

lemma unicode_decimal_ascii:
  "cp < 128 \<Longrightarrow> unicode_decimal cp = (if 48 \<le> cp \<and> cp \<le> 57 then Some (cp - 48) else None)"
  by (simp add: unicode_decimal_def decimal_starts_def)

lemma class_d_af_ascii: "cp < 128 \<Longrightarrow> class_d_af cp = class_ascii_hex cp"
  by (auto simp: class_d_af_def class_ascii_hex_def unicode_decimal_ascii)

lemma tokens_in_ascii:
  assumes "\<forall>cp \<in> set x. cp < 128"
  shows "tokens_in class_d_af x ms \<longleftrightarrow> tokens_in class_ascii_hex x ms"
proof -
  from assms have "\<forall>cp \<in> set x. class_d_af cp = class_ascii_hex cp"
    by (simp add: class_d_af_ascii)
  from findall_0x_cong [OF this] show ?thesis
    by (simp add: findall_0x_tokens_iff [symmetric])
qed

lemma tokens_in_shape:
  "tokens_in cls x ms \<Longrightarrow> m \<in> set ms \<Longrightarrow>
   \<exists>ds. m = 48 # 120 # ds \<and> ds \<noteq> [] \<and> length ds \<le> 64 \<and> list_all cls ds"
proof (induction ms arbitrary: x)
  case Nil
  then show ?case by simp
next
  case (Cons a ms)
  from Cons.prems(1) obtain ds post where p: "a = 48 # 120 # ds" "whole_token cls ds post"
    "tokens_in cls post ms" by auto
  show ?case
  proof (cases "m = a")
    case True
    with p show ?thesis by (auto simp: whole_token_def)
  next
    case False
    with Cons.prems(2) have "m \<in> set ms" by simp
    from Cons.IH [OF p(3) this] show ?thesis .
  qed
qed

subsection \<open>The number of a token\<close>

lemma unicode_decimal_less: "unicode_decimal cp = Some d \<Longrightarrow> d < 10"
proof -
  assume a: "unicode_decimal cp = Some d"
  then obtain s r where f: "filter (\<lambda>s. s \<le> cp \<and> cp < s + 10) decimal_starts = s # r"
    and d: "d = cp - s"
    by (auto simp: unicode_decimal_def split: list.splits)
  from f have "s \<in> set (filter (\<lambda>s. s \<le> cp \<and> cp < s + 10) decimal_starts)" by simp
  then have "s \<le> cp \<and> cp < s + 10" by simp
  with d show ?thesis by arith
qed

lemma unicode_space_not_decimal: "unicode_space cp \<Longrightarrow> unicode_decimal cp = None"
proof -
  assume "unicode_space cp"
  then have "cp = 133 \<or> cp = 160 \<or> (5760 \<le> cp \<and> cp \<le> 5760) \<or> (8192 \<le> cp \<and> cp \<le> 12288)"
    by (auto simp: unicode_space_def)
  then show ?thesis
    by (elim disjE) (simp_all add: unicode_decimal_def decimal_starts_def)
qed

lemma digit_value_decimal_char: "d < 10 \<Longrightarrow> digit_value (''0123456789'' ! d) = Some d"
proof -
  assume "d < 10"
  then have "d \<in> {0, 1, 2, 3, 4, 5, 6, 7, 8, 9}" by auto
  then show ?thesis by (auto simp: digit_value_def)
qed

lemma to_ascii_char_digit:
  assumes "class_d_af cp"
  shows "digit_value (to_ascii_char cp) = Some (digit16 cp) \<and> digit16 cp < 16 \<and>
         (cp < 128 \<longrightarrow> to_ascii_char cp = char_of cp)"
proof (cases "cp < 128")
  case True
  with assms have c: "class_ascii_hex cp" by (simp add: class_d_af_ascii)
  then have lt: "cp < 127" by (auto simp: class_ascii_hex_def)
  then have t: "to_ascii_char cp = char_of cp" by (simp add: to_ascii_char_def)
  from c True show ?thesis
    unfolding t by (auto simp: class_ascii_hex_def digit_value_def digit16_def unicode_decimal_ascii)
next
  case False
  with assms obtain d where d: "unicode_decimal cp = Some d" by (auto simp: class_d_af_def)
  then have ns: "\<not> unicode_space cp" using unicode_space_not_decimal by fastforce
  from d have lt: "d < 10" by (rule unicode_decimal_less)
  from False ns d have "to_ascii_char cp = ''0123456789'' ! d" by (simp add: to_ascii_char_def)
  with digit_value_decimal_char [OF lt] d lt False show ?thesis by (simp add: digit16_def)
qed

lemma char_of_48_120: "char_of (48::nat) = CHR ''0''" "char_of (120::nat) = CHR ''x''"
  by (simp_all add: char_of_eq_iff take_bit_eq_mod)

lemma to_ascii_token:
  assumes "list_all class_d_af ds"
  shows "to_ascii (48 # 120 # ds) = CHR ''0'' # CHR ''x'' # map to_ascii_char ds"
proof (cases "list_all (\<lambda>cp. cp < 128) ds")
  case True
  have "map char_of ds = map to_ascii_char ds"
  proof (rule map_cong [OF refl])
    fix cp assume "cp \<in> set ds"
    with assms True have "class_d_af cp" "cp < 128" by (auto simp: list_all_iff)
    with to_ascii_char_digit [of cp] show "char_of cp = to_ascii_char cp" by simp
  qed
  with True show ?thesis by (simp add: to_ascii_def char_of_48_120)
next
  case False
  then show ?thesis by (simp add: to_ascii_def to_ascii_char_def char_of_48_120)
qed

lemma int_text_token:
  assumes "ds \<noteq> []" "list_all class_d_af ds"
  shows "int_text 16 (48 # 120 # ds) = Inr (token_value (48 # 120 # ds))"
proof -
  define cs where "cs = map to_ascii_char ds"
  from assms(1) obtain c r where cs: "cs = c # r" by (cases ds) (auto simp: cs_def)
  from assms(2) have dv: "\<forall>cp \<in> set ds. digit_value (to_ascii_char cp) = Some (digit16 cp) \<and> digit16 cp < 16"
    by (auto simp: list_all_iff dest: to_ascii_char_digit)
  then have all16: "list_all (digit_in_base 16) cs"
    by (auto simp: cs_def list_all_iff digit_in_base_def)
  with cs have c: "digit_in_base 16 c" by simp
  have sp: "dropWhile int_space (CHR ''0'' # CHR ''x'' # cs) = CHR ''0'' # CHR ''x'' # cs"
    by (simp add: int_space_def)
  have sg: "strip_sign (CHR ''0'' # CHR ''x'' # cs) = (False, CHR ''0'' # CHR ''x'' # cs)"
    by (simp add: strip_sign_def)
  have pf: "strip_prefix16 16 (CHR ''0'' # CHR ''x'' # cs) = cs"
    using digit_in_base_facts [OF c] by (simp add: strip_prefix16_def cs)
  have t1: "take 1 cs \<noteq> ''_''"
    using digit_in_base_facts [OF c] by (simp add: cs)
  have sc: "scan_digits 16 False 0 0 cs =
      Some (foldl (\<lambda>acc c. acc * 16 + the (digit_value c)) 0 cs, length cs, [])"
    using scan_digits_all [OF all16, of 0 0] by (simp only: add_0)
  have "length cs \<noteq> 0" by (simp add: cs)
  from py_int_plain [OF sp sg pf t1 sc this]
  have 1: "py_int 16 (CHR ''0'' # CHR ''x'' # cs) =
      Inr (int (foldl (\<lambda>acc c. acc * 16 + the (digit_value c)) 0 cs))" .
  have "foldl (\<lambda>acc c. acc * 16 + the (digit_value c)) a cs =
        foldl (\<lambda>acc cp. acc * 16 + digit16 cp) a ds" for a
    unfolding cs_def using dv by (induction ds arbitrary: a) simp_all
  with 1 show ?thesis
    by (simp add: int_text_def to_ascii_token [OF assms(2)] cs_def token_value_def)
qed

lemma collect_map_total:
  "(\<And>x. x \<in> set xs \<Longrightarrow> g x = Inr (h x)) \<Longrightarrow> collect (map g xs) = Inr (map h xs)"
  by (induction xs) auto

lemma get_addresses_from_string_tokens:
  assumes "tokens_in class_d_af x ms"
  shows "get_addresses_from_string x = Inr (token_value ` set ms)"
proof -
  from assms have f: "findall_pattern x = ms"
    by (simp add: findall_pattern_def findall_0x_tokens_iff)
  have "collect (map (int_text 16) ms) = Inr (map token_value ms)"
  proof (rule collect_map_total)
    fix m assume "m \<in> set ms"
    from tokens_in_shape [OF assms this] show "int_text 16 m = Inr (token_value m)"
      by (auto simp: int_text_token)
  qed
  with f show ?thesis by (simp add: get_addresses_from_string_def)
qed

subsection \<open>The receipt parser\<close>

text \<open>
  C1, as stated, fails: the class \<^verbatim>\<open>\d\<close> of the pattern also matches the decimal digits of
  other scripts. The text \<^verbatim>\<open>0x1 0x2 0x\<close> followed by U+0663 (the Arabic-Indic digit three)
  has exactly two tokens of \<^verbatim>\<open>0x\<close> and lower-case hex digits, which denote 1 and 2, yet
  \<^verbatim>\<open>re.findall\<close> returns three matches and the unpacking raises.
\<close>

theorem parse_information_digit_class_counterexample:
  "parse_information (int_text 16) (codepoints ''0x1 0x2 0x'' @ [1635]) = Inl ValueError
   \<and> tokens_in class_ascii_hex (codepoints ''0x1 0x2 0x'' @ [1635])
        [codepoints ''0x1'', codepoints ''0x2'']
   \<and> int_text 16 (codepoints ''0x1'') = Inr 1
   \<and> int_text 16 (codepoints ''0x2'') = Inr 2"
proof -
  have 1: "findall_pattern (codepoints ''0x1 0x2 0x'' @ [1635]) =
      [[48, 120, 49], [48, 120, 50], [48, 120, 1635]]"
    by (simp add: findall_pattern_def codepoints_def match_0x_def class_d_af_def
          unicode_decimal_def decimal_starts_def)
  have 2: "findall_0x class_ascii_hex (codepoints ''0x1 0x2 0x'' @ [1635]) =
      [codepoints ''0x1'', codepoints ''0x2'']"
    by (simp add: codepoints_def match_0x_def class_ascii_hex_def)
  have 3: "int_text 16 (codepoints ''0x1'') = Inr 1" "int_text 16 (codepoints ''0x2'') = Inr 2"
    using int_text_token [of "[49]"] int_text_token [of "[50]"]
    by (simp_all add: codepoints_def class_d_af_def unicode_decimal_def decimal_starts_def
          token_value_def digit16_def)
  from 1 have "parse_information (int_text 16) (codepoints ''0x1 0x2 0x'' @ [1635]) = Inl ValueError"
    by (simp add: parse_information_def)
  with 2 3 show ?thesis by (simp add: findall_0x_tokens_iff [symmetric])
qed

text \<open>
  C1, amended. The tokens are the matches of \<^verbatim>\<open>0x\<close> followed by 1 to 64 characters that
  are decimal digits of any script or one of a to f, each taken whole (up to 64 characters,
  and as far as such characters go), from left to right without overlap; on ASCII text
  these are the tokens of \<^verbatim>\<open>0x\<close> and 1 to 64 lower-case hex digits. Every text has exactly
  one list of tokens. \<^verbatim>\<open>parse_information\<close> returns the pair of the normalised first and
  second token exactly when the text has exactly two tokens (and the normalisation
  returns); with any other number of tokens it raises \<^verbatim>\<open>ValueError\<close>, the malformed-output
  failure.
\<close>

theorem parse_information_two_whole_tokens:
  fixes norm :: "utext \<Rightarrow> pyerr + 'n"
  shows "(parse_information norm x = Inr (a', t') \<longleftrightarrow>
            (\<exists>a t. tokens_in class_d_af x [a, t] \<and> norm a = Inr a' \<and> norm t = Inr t'))
       \<and> (\<forall>ms. tokens_in class_d_af x ms \<and> length ms \<noteq> 2 \<longrightarrow>
             parse_information norm x = Inl ValueError)
       \<and> (\<exists>ms. tokens_in class_d_af x ms)
       \<and> (\<forall>ms ms'. tokens_in class_d_af x ms \<and> tokens_in class_d_af x ms' \<longrightarrow> ms = ms')
       \<and> ((\<forall>cp \<in> set x. cp < 128) \<longrightarrow>
             (\<forall>ms. tokens_in class_d_af x ms \<longleftrightarrow> tokens_in class_ascii_hex x ms))
       \<and> ((\<forall>ds. ds \<noteq> [] \<and> length ds \<le> 64 \<and> list_all class_d_af ds \<longrightarrow>
               (\<exists>v. norm (48 # 120 # ds) = Inr v)) \<longrightarrow>
             ((\<exists>r. parse_information norm x = Inr r) \<longleftrightarrow>
              (\<exists>a t. tokens_in class_d_af x [a, t])))"
proof -
  have iff: "\<And>ms. tokens_in class_d_af x ms \<longleftrightarrow> findall_pattern x = ms"
    by (simp add: findall_pattern_def findall_0x_tokens_iff)
  have 1: "parse_information norm x = Inr (a', t') \<longleftrightarrow>
            (\<exists>a t. tokens_in class_d_af x [a, t] \<and> norm a = Inr a' \<and> norm t = Inr t')"
    for a' t'
    unfolding iff by (auto simp: parse_information_def split: list.splits sum.splits)
  have 2: "\<forall>ms. tokens_in class_d_af x ms \<and> length ms \<noteq> 2 \<longrightarrow>
             parse_information norm x = Inl ValueError"
    unfolding iff by (auto simp: parse_information_def split: list.splits)
  have 3: "\<exists>ms. tokens_in class_d_af x ms" unfolding iff by simp
  have 4: "\<forall>ms ms'. tokens_in class_d_af x ms \<and> tokens_in class_d_af x ms' \<longrightarrow> ms = ms'"
    unfolding iff by simp
  have 5: "(\<forall>cp \<in> set x. cp < 128) \<longrightarrow>
             (\<forall>ms. tokens_in class_d_af x ms \<longleftrightarrow> tokens_in class_ascii_hex x ms)"
    using tokens_in_ascii by blast
  have 6: "(\<forall>ds. ds \<noteq> [] \<and> length ds \<le> 64 \<and> list_all class_d_af ds \<longrightarrow>
               (\<exists>v. norm (48 # 120 # ds) = Inr v)) \<longrightarrow>
             ((\<exists>r. parse_information norm x = Inr r) \<longleftrightarrow>
              (\<exists>a t. tokens_in class_d_af x [a, t]))"
  proof
    assume ok: "\<forall>ds. ds \<noteq> [] \<and> length ds \<le> 64 \<and> list_all class_d_af ds \<longrightarrow>
               (\<exists>v. norm (48 # 120 # ds) = Inr v)"
    show "(\<exists>r. parse_information norm x = Inr r) \<longleftrightarrow> (\<exists>a t. tokens_in class_d_af x [a, t])"
    proof
      assume "\<exists>r. parse_information norm x = Inr r"
      then obtain a' t' where "parse_information norm x = Inr (a', t')" by auto
      with 1 show "\<exists>a t. tokens_in class_d_af x [a, t]" by blast
    next
      assume "\<exists>a t. tokens_in class_d_af x [a, t]"
      then obtain a t where at: "tokens_in class_d_af x [a, t]" by blast
      from tokens_in_shape [OF at, of a] tokens_in_shape [OF at, of t] ok
      obtain va vt where "norm a = Inr va" "norm t = Inr vt" by fastforce
      moreover from at iff have "findall_pattern x = [a, t]" by blast
      ultimately show "\<exists>r. parse_information norm x = Inr r"
        by (simp add: parse_information_def)
    qed
  qed
  from 1 [of a' t'] 2 3 4 5 6 show ?thesis by blast
qed

theorem parse_information_two_whole_tokens_witness:
  "parse_information (int_text 16) (codepoints ''deployed at 0x1a2b in tx 0x3c4d'') =
     Inr (6699, 15437)
   \<and> parse_information (int_text 16) (codepoints ''only one 0xabc'') = Inl ValueError
   \<and> parse_information Inr (48 # 120 # replicate 64 97 @ 97 # codepoints '' 0x1'') =
       Inr (48 # 120 # replicate 64 97, codepoints ''0x1'')"
proof -
  note ev = findall_pattern_def codepoints_def match_0x_def class_d_af_def unicode_decimal_def
    decimal_starts_def
  note iff = findall_0x_tokens_iff [symmetric]
  have f1: "tokens_in class_d_af (codepoints ''deployed at 0x1a2b in tx 0x3c4d'')
      [codepoints ''0x1a2b'', codepoints ''0x3c4d'']"
    unfolding iff by (simp add: ev)
  have n1: "int_text 16 (codepoints ''0x1a2b'') = Inr 6699"
    using int_text_token [of "[49, 97, 50, 98]"]
    by (simp add: ev token_value_def digit16_def)
  have n2: "int_text 16 (codepoints ''0x3c4d'') = Inr 15437"
    using int_text_token [of "[51, 99, 52, 100]"]
    by (simp add: ev token_value_def digit16_def)
  from parse_information_two_whole_tokens
    [of "int_text 16" "codepoints ''deployed at 0x1a2b in tx 0x3c4d''" 6699 15437] f1 n1 n2
  have 1: "parse_information (int_text 16) (codepoints ''deployed at 0x1a2b in tx 0x3c4d'') =
     Inr (6699, 15437)" by blast
  have f2: "tokens_in class_d_af (codepoints ''only one 0xabc'') [codepoints ''0xabc''] \<and>
      length [codepoints ''0xabc''] \<noteq> 2"
    unfolding iff by (simp add: ev)
  from parse_information_two_whole_tokens [of "int_text 16" "codepoints ''only one 0xabc''"] f2
  have 2: "parse_information (int_text 16) (codepoints ''only one 0xabc'') = Inl ValueError"
    by blast
  have a: "class_d_af 97" by (simp add: class_d_af_def)
  have w: "whole_token class_d_af (replicate 64 97) (97 # codepoints '' 0x1'')"
    using a by (simp add: whole_token_def list_all_iff)
  have r: "tokens_in class_d_af (97 # codepoints '' 0x1'') [codepoints ''0x1'']"
    unfolding iff by (simp add: ev)
  have f3: "tokens_in class_d_af (48 # 120 # replicate 64 97 @ 97 # codepoints '' 0x1'')
      [48 # 120 # replicate 64 97, codepoints ''0x1'']"
    unfolding tokens_in.simps(2) [of _ _ "48 # 120 # replicate 64 97"]
    using w r
    by (intro exI [of _ "[]"] exI [of _ "replicate 64 97"]
          exI [of _ "97 # codepoints '' 0x1''"]) simp
  from parse_information_two_whole_tokens
    [of Inr "48 # 120 # replicate 64 97 @ 97 # codepoints '' 0x1''"
       "48 # 120 # replicate 64 97" "codepoints ''0x1''"] f3
  have 3: "parse_information Inr (48 # 120 # replicate 64 97 @ 97 # codepoints '' 0x1'') =
       Inr (48 # 120 # replicate 64 97, codepoints ''0x1'')" by blast
  from 1 2 3 show ?thesis by blast
qed

subsection \<open>Addresses in free text\<close>

text \<open>
  C9, as stated, fails in its second part: the text \<^verbatim>\<open>0x\<close> followed by U+0663 (the
  Arabic-Indic digit three) has no token of \<^verbatim>\<open>0x\<close> and lower-case hex digits, yet the
  pattern matches it, \<^verbatim>\<open>int\<close> reads it, and the set returned is \<open>{3}\<close>, not empty.
\<close>

theorem get_addresses_digit_class_counterexample:
  "get_addresses_from_string [48, 120, 1635] = Inr {3}
   \<and> tokens_in class_ascii_hex [48, 120, 1635] []"
proof -
  note ev = findall_pattern_def match_0x_def class_d_af_def unicode_decimal_def
    decimal_starts_def
  have "tokens_in class_d_af [48, 120, 1635] [[48, 120, 1635]]"
    unfolding findall_0x_tokens_iff [symmetric] by (simp add: ev)
  from get_addresses_from_string_tokens [OF this]
  have 1: "get_addresses_from_string [48, 120, 1635] = Inr {3}"
    by (simp add: token_value_def digit16_def unicode_decimal_def decimal_starts_def)
  have 2: "tokens_in class_ascii_hex [48, 120, 1635] []"
    unfolding findall_0x_tokens_iff [symmetric]
    by (simp add: match_0x_def class_ascii_hex_def)
  from 1 2 show ?thesis by blast
qed

text \<open>
  C9, amended. \<^verbatim>\<open>prepare_params(None)\<close> is the empty list.
  \<^verbatim>\<open>get_addresses_from_string\<close> never fails and returns the set of the numbers that the
  tokens of the text denote in base 16, equal numbers counting once; the tokens are the
  matches of \<^verbatim>\<open>0x\<close> followed by 1 to 64 characters that are decimal digits of any script
  or one of a to f, each taken whole. On ASCII text these are the tokens of \<^verbatim>\<open>0x\<close> and 1
  to 64 lower-case hex digits, and the text \<^verbatim>\<open>foo 0x1 bar 0x1 0x2\<close> gives \<open>{1, 2}\<close>.
\<close>

theorem prepare_params_None_and_whole_token_addresses:
  "prepare_params felt None = Inr (RList [])
   \<and> (\<exists>ms. tokens_in class_d_af x ms)
   \<and> (\<forall>ms. tokens_in class_d_af x ms \<longrightarrow>
         get_addresses_from_string x = Inr (token_value ` set ms))
   \<and> ((\<forall>cp \<in> set x. cp < 128) \<longrightarrow>
         (\<forall>ms. tokens_in class_ascii_hex x ms \<longrightarrow>
            get_addresses_from_string x = Inr (token_value ` set ms)))
   \<and> get_addresses_from_string (codepoints ''foo 0x1 bar 0x1 0x2'') = Inr {1, 2}"
proof (intro conjI)
  show "prepare_params felt None = Inr (RList [])"
    by (simp add: prepare_params_def)
  show "\<exists>ms. tokens_in class_d_af x ms"
    by (simp add: findall_0x_tokens_iff [symmetric])
  show "\<forall>ms. tokens_in class_d_af x ms \<longrightarrow>
         get_addresses_from_string x = Inr (token_value ` set ms)"
    by (simp add: get_addresses_from_string_tokens)
  show "(\<forall>cp \<in> set x. cp < 128) \<longrightarrow>
         (\<forall>ms. tokens_in class_ascii_hex x ms \<longrightarrow>
            get_addresses_from_string x = Inr (token_value ` set ms))"
    using tokens_in_ascii [of x] get_addresses_from_string_tokens [of x] by blast
  note ev = findall_pattern_def codepoints_def match_0x_def class_d_af_def unicode_decimal_def
    decimal_starts_def
  have "tokens_in class_d_af (codepoints ''foo 0x1 bar 0x1 0x2'')
      [[48, 120, 49], [48, 120, 49], [48, 120, 50]]"
    unfolding findall_0x_tokens_iff [symmetric] by (simp add: ev)
  from get_addresses_from_string_tokens [OF this]
  show "get_addresses_from_string (codepoints ''foo 0x1 bar 0x1 0x2'') = Inr {1, 2}"
    by (simp add: token_value_def digit16_def unicode_decimal_def decimal_starts_def)
qed

theorem prepare_params_None_and_whole_token_addresses_witness:
  "prepare_params str_to_felt_spec None = Inr (RList [])
   \<and> get_addresses_from_string (codepoints ''0xff and 0x10'') = Inr {255, 16}
   \<and> get_addresses_from_string (48 # 120 # replicate 65 102) =
       Inr {token_value (48 # 120 # replicate 64 102)}"
proof -
  note ev = findall_pattern_def codepoints_def match_0x_def class_d_af_def unicode_decimal_def
    decimal_starts_def
  note T = prepare_params_None_and_whole_token_addresses
  have a: "(\<forall>cp \<in> set (codepoints ''0xff and 0x10''). cp < 128) \<and>
      tokens_in class_ascii_hex (codepoints ''0xff and 0x10'')
        [codepoints ''0xff'', codepoints ''0x10'']"
    unfolding findall_0x_tokens_iff [symmetric]
    by (simp add: codepoints_def match_0x_def class_ascii_hex_def)
  from T [of str_to_felt_spec "codepoints ''0xff and 0x10''"] a
  have "get_addresses_from_string (codepoints ''0xff and 0x10'') =
      Inr (token_value ` set [codepoints ''0xff'', codepoints ''0x10''])" by blast
  then have 1: "get_addresses_from_string (codepoints ''0xff and 0x10'') = Inr {255, 16}"
    by (simp add: codepoints_def token_value_def digit16_def unicode_decimal_def
          decimal_starts_def)
  have c: "class_d_af 102" by (simp add: class_d_af_def)
  have w: "whole_token class_d_af (replicate 64 102) [102]"
    using c by (simp add: whole_token_def list_all_iff)
  have r: "tokens_in class_d_af [102] []"
    by (simp add: starts_token_def)
  have "replicate (64 + 1) (102::nat) = replicate 64 102 @ replicate 1 102"
    by (rule replicate_add)
  then have "replicate 65 102 = replicate 64 102 @ [102::nat]"
    by simp
  then have e: "48 # 120 # replicate 65 102 = [] @ 48 # 120 # replicate 64 102 @ [102::nat]"
    by simp
  have t: "tokens_in class_d_af (48 # 120 # replicate 65 102) [48 # 120 # replicate 64 102]"
    unfolding tokens_in.simps(2) [of _ _ "48 # 120 # replicate 64 102"]
    using w r e
    by (intro exI [of _ "[]"] exI [of _ "replicate 64 102"] exI [of _ "[102]"]) simp
  from T [of str_to_felt_spec "48 # 120 # replicate 65 102"] t
  have 2: "get_addresses_from_string (48 # 120 # replicate 65 102) =
       Inr (token_value ` set [48 # 120 # replicate 64 102])" by blast
  from T [of str_to_felt_spec] 1 2 show ?thesis by simp
qed

end
